theory Spec2Isabelle
  imports Main "HOL-Library.Word"
begin

section \<open>Values and errors\<close>

text \<open>
  The field classes of \<^verbatim>\<open>nucypher/control/specifications/fields/base.py\<close> and
  \<^verbatim>\<open>nucypher/characters/control/specifications/fields/label.py\<close> convert dynamically
  typed Python values. The values that cross this layer are \<^verbatim>\<open>None\<close>, integers, text
  (\<^verbatim>\<open>str\<close>, a sequence of Unicode code points), byte sequences (\<^verbatim>\<open>bytes\<close>) and lists.
\<close>

type_synonym byte = "8 word"
type_synonym bytes = "byte list"
type_synonym str = "nat list"

datatype pyval = PNone | PInt int | PStr str | PBytes bytes | PList "pyval list"

text \<open>
  The messages of a marshmallow \<^verbatim>\<open>ValidationError\<close>: a list of texts, or, for a list field,
  a dictionary from the index of each failing element to that element's messages.
\<close>

datatype messages = Messages "string list" | ByIndex "(nat \<times> messages) list"

text \<open>
  Modelled from the spec: the module \<^verbatim>\<open>nucypher.control.specifications.exceptions\<close>, from
  which \<^verbatim>\<open>base.py\<close> imports \<^verbatim>\<open>InvalidInputData\<close>, is not among the sources. By the
  specification's error taxonomy it has no dependencies and its error carries a
  human-readable message: \<^verbatim>\<open>InvalidInputData\<close> is an exception class of its own, with a
  message.

  The other exceptions, as values: \<^verbatim>\<open>ValidationError\<close> is marshmallow's (with its
  \<^verbatim>\<open>messages\<close> and \<^verbatim>\<open>valid_data\<close>), the rest are Python's built-in ones.
\<close>

datatype error =
    ValidationError messages "pyval option"
  | InvalidInputData string
  | AttributeError
  | TypeError
  | ValueError
  | UnicodeDecodeError
  | UnicodeEncodeError

text \<open>The two kinds of error that report invalid input to the caller.\<close>

fun is_validation_error :: "error \<Rightarrow> bool" where
  "is_validation_error (ValidationError m d) = True"
| "is_validation_error (InvalidInputData m) = True"
| "is_validation_error e = False"

text \<open>Literals: \<^verbatim>\<open>"abc"\<close> is \<open>str_lit ''abc''\<close> and \<^verbatim>\<open>b"abc"\<close> is \<open>bytes_lit ''abc''\<close>.\<close>

definition str_lit :: "string \<Rightarrow> str" where
  "str_lit s = map of_char s"

definition bytes_lit :: "string \<Rightarrow> bytes" where
  "bytes_lit s = map of_char s"

section \<open>Python built-ins used by the fields\<close>

subsection \<open>\<^verbatim>\<open>str.encode()\<close> and \<^verbatim>\<open>bytes.decode('utf-8')\<close>\<close>

definition is_continuation :: "nat \<Rightarrow> bool" where
  "is_continuation b = (0x80 \<le> b \<and> b < 0xC0)"

definition is_surrogate :: "nat \<Rightarrow> bool" where
  "is_surrogate cp = (0xD800 \<le> cp \<and> cp \<le> 0xDFFF)"

text \<open>
  A code point has a UTF-8 encoding when it is a Unicode scalar value. A Python \<^verbatim>\<open>str\<close> may
  hold lone surrogates; \<^verbatim>\<open>encode\<close> raises \<^verbatim>\<open>UnicodeEncodeError\<close> on them. (A number from
  0x110000 on is no code point; the model refuses it in the same way.)
\<close>

definition encodable :: "nat \<Rightarrow> bool" where
  "encodable cp = (cp < 0x110000 \<and> \<not> is_surrogate cp)"

definition utf8_encode_char :: "nat \<Rightarrow> nat list" where
  "utf8_encode_char cp =
     (if cp < 0x80 then [cp]
      else if cp < 0x800 then [0xC0 + cp div 64, 0x80 + cp mod 64]
      else if cp < 0x10000 then [0xE0 + cp div 4096, 0x80 + cp div 64 mod 64, 0x80 + cp mod 64]
      else [0xF0 + cp div 262144, 0x80 + cp div 4096 mod 64, 0x80 + cp div 64 mod 64,
            0x80 + cp mod 64])"

definition str_encode :: "str \<Rightarrow> error + bytes" where
  "str_encode s =
     (if list_all encodable s then Inr (map of_nat (concat (map utf8_encode_char s)))
      else Inl UnicodeEncodeError)"

text \<open>
  The strict decoder: one code point from the front of the bytes, refusing a stray
  continuation byte, a truncated sequence, an overlong form, a surrogate and a value
  beyond U+10FFFF.
\<close>

definition utf8_decode_char :: "nat list \<Rightarrow> (nat \<times> nat list) option" where
  "utf8_decode_char bs =
     (case bs of
        [] \<Rightarrow> None
      | b0 # rest \<Rightarrow>
          if b0 < 0x80 then Some (b0, rest)
          else if b0 < 0xC0 then None
          else if b0 < 0xE0 then
            (case rest of
               b1 # rest1 \<Rightarrow>
                 (let cp = (b0 - 0xC0) * 64 + (b1 - 0x80)
                  in if is_continuation b1 \<and> 0x80 \<le> cp then Some (cp, rest1) else None)
             | _ \<Rightarrow> None)
          else if b0 < 0xF0 then
            (case rest of
               b1 # b2 # rest2 \<Rightarrow>
                 (let cp = (b0 - 0xE0) * 4096 + (b1 - 0x80) * 64 + (b2 - 0x80)
                  in if is_continuation b1 \<and> is_continuation b2 \<and> 0x800 \<le> cp
                        \<and> \<not> is_surrogate cp
                     then Some (cp, rest2) else None)
             | _ \<Rightarrow> None)
          else if b0 < 0xF8 then
            (case rest of
               b1 # b2 # b3 # rest3 \<Rightarrow>
                 (let cp = (b0 - 0xF0) * 262144 + (b1 - 0x80) * 4096 + (b2 - 0x80) * 64
                           + (b3 - 0x80)
                  in if is_continuation b1 \<and> is_continuation b2 \<and> is_continuation b3
                        \<and> 0x10000 \<le> cp \<and> cp < 0x110000
                     then Some (cp, rest3) else None)
             | _ \<Rightarrow> None)
          else None)"

function utf8_decode_loop :: "nat list \<Rightarrow> str option" where
  "utf8_decode_loop [] = Some []"
| "utf8_decode_loop (b # bs) =
     (case utf8_decode_char (b # bs) of
        None \<Rightarrow> None
      | Some (cp, rest) \<Rightarrow> map_option (Cons cp) (utf8_decode_loop rest))"
  by pat_completeness auto
termination
proof (relation "measure length")
  show "wf (measure length)" by simp
next
  fix b bs x2 cp rest
  assume "utf8_decode_char (b # bs) = Some x2" "(cp, rest) = x2"
  then have "utf8_decode_char (b # bs) = Some (cp, rest)" by simp
  then have "length rest < length (b # bs)"
    unfolding utf8_decode_char_def
    by (auto split: if_splits list.splits simp: Let_def)
  then show "(rest, b # bs) \<in> measure length" by simp
qed

definition bytes_decode :: "bytes \<Rightarrow> error + str" where
  "bytes_decode b =
     (case utf8_decode_loop (map unat b) of
        None \<Rightarrow> Inl UnicodeDecodeError
      | Some s \<Rightarrow> Inr s)"

subsection \<open>\<^verbatim>\<open>split\<close> and \<^verbatim>\<open>join\<close>\<close>

text \<open>
  \<^verbatim>\<open>s.split(sep)\<close> scans left to right, cutting at each occurrence of the separator; an
  empty separator raises \<^verbatim>\<open>ValueError\<close>. \<open>cur\<close> is the segment being collected.
\<close>

function split_loop :: "'a list \<Rightarrow> 'a list \<Rightarrow> 'a list \<Rightarrow> 'a list list" where
  "split_loop sep cur [] = [cur]"
| "split_loop sep cur (c # cs) =
     (if sep \<noteq> [] \<and> take (length sep) (c # cs) = sep
      then cur # split_loop sep [] (drop (length sep) (c # cs))
      else split_loop sep (cur @ [c]) cs)"
  by pat_completeness auto
termination
  by (relation "measure (\<lambda>(sep, cur, s). length s)") auto

definition split_on :: "'a list \<Rightarrow> 'a list \<Rightarrow> error + 'a list list" where
  "split_on sep s = (if sep = [] then Inl ValueError else Inr (split_loop sep [] s))"

text \<open>\<^verbatim>\<open>s.split(None)\<close>: the maximal runs of characters that are not whitespace.\<close>

fun split_whitespace :: "('a \<Rightarrow> bool) \<Rightarrow> 'a list \<Rightarrow> 'a list \<Rightarrow> 'a list list" where
  "split_whitespace space cur [] = (if cur = [] then [] else [cur])"
| "split_whitespace space cur (c # cs) =
     (if space c
      then (if cur = [] then split_whitespace space [] cs
            else cur # split_whitespace space [] cs)
      else split_whitespace space (cur @ [c]) cs)"

definition is_ascii_space :: "nat \<Rightarrow> bool" where
  "is_ascii_space c = ((9 \<le> c \<and> c \<le> 13) \<or> c = 32)"

definition is_unicode_space :: "nat \<Rightarrow> bool" where
  "is_unicode_space c =
     ((9 \<le> c \<and> c \<le> 13) \<or> (28 \<le> c \<and> c \<le> 32) \<or> c = 0x85 \<or> c = 0xA0 \<or> c = 0x1680
      \<or> (0x2000 \<le> c \<and> c \<le> 0x200A) \<or> c = 0x2028 \<or> c = 0x2029 \<or> c = 0x202F
      \<or> c = 0x205F \<or> c = 0x3000)"

text \<open>
  \<^verbatim>\<open>value.split(delimiter)\<close> by the type of the receiver: text and bytes have the method
  (and want a separator of their own type, or \<^verbatim>\<open>None\<close>), the other values have none.
\<close>

fun split_method :: "pyval \<Rightarrow> pyval \<Rightarrow> error + pyval" where
  "split_method (PStr s) (PStr sep) =
     (case split_on sep s of Inl e \<Rightarrow> Inl e | Inr parts \<Rightarrow> Inr (PList (map PStr parts)))"
| "split_method (PStr s) PNone =
     Inr (PList (map PStr (split_whitespace is_unicode_space [] s)))"
| "split_method (PStr s) sep = Inl TypeError"
| "split_method (PBytes b) (PBytes sep) =
     (case split_on sep b of Inl e \<Rightarrow> Inl e | Inr parts \<Rightarrow> Inr (PList (map PBytes parts)))"
| "split_method (PBytes b) PNone =
     Inr (PList (map PBytes (split_whitespace (\<lambda>w. is_ascii_space (unat w)) [] b)))"
| "split_method (PBytes b) sep = Inl TypeError"
| "split_method v sep = Inl AttributeError"

text \<open>\<^verbatim>\<open>sep.join(parts)\<close>.\<close>

fun join :: "'a list \<Rightarrow> 'a list list \<Rightarrow> 'a list" where
  "join sep [] = []"
| "join sep [x] = x"
| "join sep (x # y # ys) = x @ sep @ join sep (y # ys)"

subsection \<open>\<^verbatim>\<open>int(value)\<close>\<close>

text \<open>
  \<^verbatim>\<open>int\<close> reads an integer literal in base 10: optional whitespace, an optional sign,
  decimal digits (single underscores may separate them), optional whitespace. This is
  the built-in of CPython 3.11 with the character database of Unicode 14:
  \<^item> From text it reads the decimal digits of every script. They come in runs of ten
    consecutive code points, for the values 0 to 9; \<open>decimal_zeros\<close> lists the first code
    point of every run beyond ASCII.
  \<^item> The whitespace it skips in text is the ASCII whitespace and the Unicode whitespace
    beyond ASCII; the separators U+001C to U+001F, which \<^verbatim>\<open>str.split\<close> treats as
    whitespace, are not skipped. In bytes only ASCII whitespace and ASCII digits count.
  \<^item> A literal of more than \<open>max_str_digits\<close> digits is refused (the interpreter's default
    limit).
\<close>

definition ascii_decimal :: "nat \<Rightarrow> nat option" where
  "ascii_decimal c = (if 0x30 \<le> c \<and> c \<le> 0x39 then Some (c - 0x30) else None)"

definition decimal_zeros :: "nat list" where
  "decimal_zeros =
     [
      0x660, 0x6F0, 0x7C0, 0x966, 0x9E6, 0xA66, 0xAE6, 0xB66, 0xBE6, 0xC66, 0xCE6, 0xD66,
      0xDE6, 0xE50, 0xED0, 0xF20, 0x1040, 0x1090, 0x17E0, 0x1810, 0x1946, 0x19D0, 0x1A80,
      0x1A90, 0x1B50, 0x1BB0, 0x1C40, 0x1C50, 0xA620, 0xA8D0, 0xA900, 0xA9D0, 0xA9F0,
      0xAA50, 0xABF0, 0xFF10, 0x104A0, 0x10D30, 0x11066, 0x110F0, 0x11136, 0x111D0,
      0x112F0, 0x11450, 0x114D0, 0x11650, 0x116C0, 0x11730, 0x118E0, 0x11950, 0x11C50,
      0x11D50, 0x11DA0, 0x16A60, 0x16AC0, 0x16B50, 0x1D7CE, 0x1D7D8, 0x1D7E2, 0x1D7EC,
      0x1D7F6, 0x1E140, 0x1E2F0, 0x1E950, 0x1FBF0
     ]"

definition unicode_decimal :: "nat \<Rightarrow> nat option" where
  "unicode_decimal c =
     (if c < 128 then ascii_decimal c
      else map_option (\<lambda>z. c - z) (find (\<lambda>z. z \<le> c \<and> c < z + 10) decimal_zeros))"

definition is_int_space :: "nat \<Rightarrow> bool" where
  "is_int_space c = (is_ascii_space c \<or> (127 < c \<and> is_unicode_space c))"

definition max_str_digits :: nat where
  "max_str_digits = 4300"

fun int_digits :: "(nat \<Rightarrow> nat option) \<Rightarrow> nat list \<Rightarrow> int \<Rightarrow> int option" where
  "int_digits decimal [] acc = Some acc"
| "int_digits decimal (c # cs) acc =
     (case decimal c of
        Some d \<Rightarrow> int_digits decimal cs (10 * acc + int d)
      | None \<Rightarrow>
          if c = 0x5F \<and> cs \<noteq> [] \<and> decimal (hd cs) \<noteq> None then int_digits decimal cs acc
          else None)"

definition int_literal ::
  "(nat \<Rightarrow> bool) \<Rightarrow> (nat \<Rightarrow> nat option) \<Rightarrow> nat list \<Rightarrow> int option" where
  "int_literal space decimal s =
     (let t = dropWhile space s;
          (sign, u) = (case t of
                         [] \<Rightarrow> (1, [])
                       | c # cs \<Rightarrow> if c = 0x2D then (- 1, cs)
                                   else if c = 0x2B then (1, cs) else (1, t));
          v = rev (dropWhile space (rev u))
      in if max_str_digits < length (filter (\<lambda>c. decimal c \<noteq> None) v) then None
         else case v of
                [] \<Rightarrow> None
              | c # cs \<Rightarrow>
                  (case decimal c of
                     None \<Rightarrow> None
                   | Some d \<Rightarrow> map_option (\<lambda>n. sign * n) (int_digits decimal cs (int d))))"

fun py_int :: "pyval \<Rightarrow> error + int" where
  "py_int (PInt n) = Inr n"
| "py_int (PStr s) =
     (case int_literal is_int_space unicode_decimal s of
        None \<Rightarrow> Inl ValueError
      | Some n \<Rightarrow> Inr n)"
| "py_int (PBytes b) =
     (case int_literal is_ascii_space ascii_decimal (map unat b) of
        None \<Rightarrow> Inl ValueError
      | Some n \<Rightarrow> Inr n)"
| "py_int PNone = Inl TypeError"
| "py_int (PList xs) = Inl TypeError"

text \<open>A list comprehension \<^verbatim>\<open>[f(each) for each in value]\<close>: the first exception ends it.\<close>

fun comprehension :: "('a \<Rightarrow> error + 'b) \<Rightarrow> 'a list \<Rightarrow> error + 'b list" where
  "comprehension f [] = Inr []"
| "comprehension f (x # xs) =
     (case f x of
        Inl e \<Rightarrow> Inl e
      | Inr y \<Rightarrow> (case comprehension f xs of Inl e \<Rightarrow> Inl e | Inr ys \<Rightarrow> Inr (y # ys)))"

text \<open>\<^verbatim>\<open>dict.pop(key, default)\<close>: the value (or the default) and the dictionary without the key.\<close>

definition dict_pop :: "'k \<Rightarrow> 'v \<Rightarrow> ('k \<rightharpoonup> 'v) \<Rightarrow> 'v \<times> ('k \<rightharpoonup> 'v)" where
  "dict_pop k d m = ((case m k of None \<Rightarrow> d | Some v \<Rightarrow> v), m(k := None))"

section \<open>The marshmallow base classes\<close>

text \<open>
  Every class of \<^verbatim>\<open>base.py\<close> derives from a class of the marshmallow library
  (\<^verbatim>\<open>fields.String\<close>, \<^verbatim>\<open>fields.List\<close>, \<^verbatim>\<open>fields.Integer\<close>, \<^verbatim>\<open>fields.Field\<close>) and inherits
  the methods it does not override. This section gives the inherited methods, with the
  options the repository never sets at their defaults (\<^verbatim>\<open>allow_none\<close> false, no
  validators, \<^verbatim>\<open>strict\<close> and \<^verbatim>\<open>as_string\<close> false).
\<close>

definition make_error :: "string \<Rightarrow> error" where
  "make_error message = ValidationError (Messages [message]) None"

text \<open>
  \<^verbatim>\<open>Field.deserialize\<close>: refuse \<^verbatim>\<open>None\<close>, call the class's \<^verbatim>\<open>_deserialize\<close>, then the
  class's \<^verbatim>\<open>_validate\<close> on the output.
\<close>

definition Field_deserialize ::
  "(pyval \<Rightarrow> error + pyval) \<Rightarrow> (pyval \<Rightarrow> error + unit) \<Rightarrow> pyval \<Rightarrow> error + pyval" where
  "Field_deserialize deserialize_method validate_method value =
     (if value = PNone then Inl (make_error ''Field may not be null.'')
      else case deserialize_method value of
             Inl e \<Rightarrow> Inl e
           | Inr output \<Rightarrow>
               (case validate_method output of Inl e \<Rightarrow> Inl e | Inr u \<Rightarrow> Inr output))"

text \<open>\<^verbatim>\<open>Field._validate\<close> with no validators configured.\<close>

definition Field_validate :: "pyval \<Rightarrow> error + unit" where
  "Field_validate value = Inr ()"

text \<open>\<^verbatim>\<open>fields.String\<close>. \<open>builtin_str\<close> is Python's \<^verbatim>\<open>str()\<close> on a value that is neither text
  nor bytes, a parameter of the model.\<close>

fun String_deserialize :: "pyval \<Rightarrow> error + pyval" where
  "String_deserialize (PStr s) = Inr (PStr s)"
| "String_deserialize (PBytes b) =
     (case bytes_decode b of
        Inl e \<Rightarrow> Inl (make_error ''Not a valid utf-8 string.'')
      | Inr s \<Rightarrow> Inr (PStr s))"
| "String_deserialize value = Inl (make_error ''Not a valid string.'')"

fun String_serialize :: "(pyval \<Rightarrow> str) \<Rightarrow> pyval \<Rightarrow> error + pyval" where
  "String_serialize builtin_str PNone = Inr PNone"
| "String_serialize builtin_str (PStr s) = Inr (PStr s)"
| "String_serialize builtin_str (PBytes b) =
     (case bytes_decode b of Inl e \<Rightarrow> Inl e | Inr s \<Rightarrow> Inr (PStr s))"
| "String_serialize builtin_str value = Inr (PStr (builtin_str value))"

text \<open>\<^verbatim>\<open>fields.Integer\<close>: \<^verbatim>\<open>int(value)\<close>, whose \<^verbatim>\<open>TypeError\<close> and \<^verbatim>\<open>ValueError\<close> become a
  \<^verbatim>\<open>ValidationError\<close> when deserializing and propagate when serializing.\<close>

definition Integer_deserialize :: "pyval \<Rightarrow> error + pyval" where
  "Integer_deserialize value =
     (if value = PNone then Inr PNone
      else case py_int value of
             Inl TypeError \<Rightarrow> Inl (make_error ''Not a valid integer.'')
           | Inl ValueError \<Rightarrow> Inl (make_error ''Not a valid integer.'')
           | Inl e \<Rightarrow> Inl e
           | Inr n \<Rightarrow> Inr (PInt n))"

definition Integer_serialize :: "pyval \<Rightarrow> error + pyval" where
  "Integer_serialize value =
     (if value = PNone then Inr PNone
      else case py_int value of Inl e \<Rightarrow> Inl e | Inr n \<Rightarrow> Inr (PInt n))"

text \<open>
  \<^verbatim>\<open>fields.List._deserialize\<close>: a value that is not a collection is invalid; otherwise every
  item goes through the element field's \<^verbatim>\<open>deserialize\<close>. A \<^verbatim>\<open>ValidationError\<close> of an item is
  caught and recorded under the item's index (its \<^verbatim>\<open>valid_data\<close>, when it has some, joins the
  result); any other exception leaves the loop at once. After the loop, recorded errors
  are raised as one \<^verbatim>\<open>ValidationError\<close>.
\<close>

fun List_loop ::
  "(pyval \<Rightarrow> error + pyval) \<Rightarrow> nat \<Rightarrow> pyval list \<Rightarrow> pyval list \<Rightarrow> (nat \<times> messages) list
     \<Rightarrow> error + (pyval list \<times> (nat \<times> messages) list)" where
  "List_loop inner idx [] result errors = Inr (result, errors)"
| "List_loop inner idx (each # rest) result errors =
     (case inner each of
        Inr v \<Rightarrow> List_loop inner (Suc idx) rest (result @ [v]) errors
      | Inl (ValidationError msgs valid_data) \<Rightarrow>
          List_loop inner (Suc idx) rest
            (case valid_data of None \<Rightarrow> result | Some d \<Rightarrow> result @ [d])
            (errors @ [(idx, msgs)])
      | Inl e \<Rightarrow> Inl e)"

fun List_deserialize :: "(pyval \<Rightarrow> error + pyval) \<Rightarrow> pyval \<Rightarrow> error + pyval" where
  "List_deserialize inner (PList xs) =
     (case List_loop inner 0 xs [] [] of
        Inl e \<Rightarrow> Inl e
      | Inr (result, errors) \<Rightarrow>
          if errors \<noteq> [] then Inl (ValidationError (ByIndex errors) (Some (PList result)))
          else Inr (PList result))"
| "List_deserialize inner value = Inl (make_error ''Not a valid list.'')"

text \<open>\<^verbatim>\<open>fields.List._serialize\<close>: the element field's \<^verbatim>\<open>_serialize\<close> on every item of the
  value (iterating text gives its characters, iterating bytes gives integers).\<close>

fun List_serialize :: "(pyval \<Rightarrow> error + pyval) \<Rightarrow> pyval \<Rightarrow> error + pyval" where
  "List_serialize inner PNone = Inr PNone"
| "List_serialize inner (PList xs) = map_sum id PList (comprehension inner xs)"
| "List_serialize inner (PStr s) =
     map_sum id PList (comprehension inner (map (\<lambda>c. PStr [c]) s))"
| "List_serialize inner (PBytes b) =
     map_sum id PList (comprehension inner (map (\<lambda>w. PInt (uint w)) b))"
| "List_serialize inner (PInt n) = Inl TypeError"

section \<open>The field classes of the repository\<close>

subsection \<open>\<^verbatim>\<open>BaseField\<close>\<close>

text \<open>
  \<^verbatim>\<open>click_type\<close> is a class attribute: \<^verbatim>\<open>click.STRING\<close> in \<^verbatim>\<open>BaseField\<close>, \<^verbatim>\<open>click.INT\<close> in
  \<^verbatim>\<open>Integer\<close>. \<^verbatim>\<open>BaseField.__init__\<close> pops \<^verbatim>\<open>'click'\<close> from the keyword arguments (default
  \<^verbatim>\<open>None\<close>) into \<^verbatim>\<open>self.click\<close> and passes the rest to \<^verbatim>\<open>super().__init__\<close>. The result is
  \<^verbatim>\<open>self.click\<close> and the keyword arguments passed on.
\<close>

datatype click_param_type = click_STRING | click_INT

definition BaseField_click_type :: click_param_type where
  "BaseField_click_type = click_STRING"

definition Integer_click_type :: click_param_type where
  "Integer_click_type = click_INT"

definition BaseField_init :: "(string \<rightharpoonup> pyval) \<Rightarrow> pyval \<times> (string \<rightharpoonup> pyval)" where
  "BaseField_init kwargs = dict_pop ''click'' PNone kwargs"

subsection \<open>\<^verbatim>\<open>StringList\<close>\<close>

text \<open>
  \<^verbatim>\<open>StringList.__init__\<close> pops \<^verbatim>\<open>'delimiter'\<close> (default \<^verbatim>\<open>','\<close>) and continues with
  \<^verbatim>\<open>BaseField.__init__\<close>. The result is \<^verbatim>\<open>self.delimiter\<close>, \<^verbatim>\<open>self.click\<close> and the keyword
  arguments that reach \<^verbatim>\<open>fields.List.__init__\<close>.
\<close>

definition StringList_init ::
  "(string \<rightharpoonup> pyval) \<Rightarrow> pyval \<times> pyval \<times> (string \<rightharpoonup> pyval)" where
  "StringList_init kwargs =
     (let (delimiter, kwargs1) = dict_pop ''delimiter'' (PStr (str_lit '','')) kwargs;
          (click, kwargs2) = BaseField_init kwargs1
      in (delimiter, click, kwargs2))"

text \<open>\<^verbatim>\<open>StringList._deserialize\<close>: a value that is not a list is split first; then
  \<^verbatim>\<open>fields.List._deserialize\<close>.\<close>

definition StringList_deserialize ::
  "pyval \<Rightarrow> (pyval \<Rightarrow> error + pyval) \<Rightarrow> pyval \<Rightarrow> error + pyval" where
  "StringList_deserialize delimiter inner value =
     (case value of
        PList xs \<Rightarrow> List_deserialize inner value
      | _ \<Rightarrow> (case split_method value delimiter of
                Inl e \<Rightarrow> Inl e
              | Inr parts \<Rightarrow> List_deserialize inner parts))"

subsection \<open>\<^verbatim>\<open>PositiveInteger\<close>\<close>

text \<open>
  \<^verbatim>\<open>PositiveInteger._validate\<close> raises \<^verbatim>\<open>InvalidInputData\<close> unless \<^verbatim>\<open>value > 0\<close>. The message is
  the f-string \<^verbatim>\<open>f"{self.name} must be a positive integer."\<close>; a field that no schema has
  bound has the name \<^verbatim>\<open>None\<close>. Comparing a value that is not a number with \<^verbatim>\<open>0\<close> raises
  \<^verbatim>\<open>TypeError\<close>.
\<close>

definition format_name :: "string option \<Rightarrow> string" where
  "format_name name = (case name of None \<Rightarrow> ''None'' | Some n \<Rightarrow> n)"

fun PositiveInteger_validate :: "string option \<Rightarrow> pyval \<Rightarrow> error + unit" where
  "PositiveInteger_validate name (PInt value) =
     (if \<not> value > 0
      then Inl (InvalidInputData (format_name name @ '' must be a positive integer.''))
      else Inr ())"
| "PositiveInteger_validate name value = Inl TypeError"

subsection \<open>\<^verbatim>\<open>Label\<close>\<close>

text \<open>
  \<^verbatim>\<open>Label._serialize\<close> is \<^verbatim>\<open>value.decode('utf-8')\<close> and \<^verbatim>\<open>Label._deserialize\<close> returns bytes
  as they are and \<^verbatim>\<open>value.encode()\<close> otherwise. Only bytes have \<^verbatim>\<open>decode\<close>; only text has
  \<^verbatim>\<open>encode\<close>.
\<close>

fun Label_serialize :: "pyval \<Rightarrow> error + pyval" where
  "Label_serialize (PBytes b) =
     (case bytes_decode b of Inl e \<Rightarrow> Inl e | Inr s \<Rightarrow> Inr (PStr s))"
| "Label_serialize value = Inl AttributeError"

fun Label_deserialize :: "pyval \<Rightarrow> error + pyval" where
  "Label_deserialize (PBytes b) = Inr (PBytes b)"
| "Label_deserialize (PStr s) =
     (case str_encode s of Inl e \<Rightarrow> Inl e | Inr b \<Rightarrow> Inr (PBytes b))"
| "Label_deserialize value = Inl AttributeError"

subsection \<open>Field instances and method resolution\<close>

text \<open>
  A field instance: its class and the configuration its methods read (the name a schema
  gave a \<^verbatim>\<open>PositiveInteger\<close>, the delimiter of a \<^verbatim>\<open>StringList\<close>, the element field of a list).
  \<open>deserialize\<close> and \<open>serialize\<close> pick each method from the first class that defines it,
  in the order Python resolves it.
\<close>

datatype field =
    String
  | Integer
  | PositiveInteger "string option"
  | Label
  | List field
  | StringList pyval field

primrec click_type :: "field \<Rightarrow> click_param_type" where
  "click_type String = BaseField_click_type"
| "click_type Integer = Integer_click_type"
| "click_type (PositiveInteger name) = Integer_click_type"
| "click_type Label = BaseField_click_type"
| "click_type (List inner) = BaseField_click_type"
| "click_type (StringList delimiter inner) = BaseField_click_type"

primrec deserialize :: "field \<Rightarrow> pyval \<Rightarrow> error + pyval" where
  "deserialize String = Field_deserialize String_deserialize Field_validate"
| "deserialize Integer = Field_deserialize Integer_deserialize Field_validate"
| "deserialize (PositiveInteger name) =
     Field_deserialize Integer_deserialize (PositiveInteger_validate name)"
| "deserialize Label = Field_deserialize Label_deserialize Field_validate"
| "deserialize (List inner) =
     Field_deserialize (List_deserialize (deserialize inner)) Field_validate"
| "deserialize (StringList delimiter inner) =
     Field_deserialize (StringList_deserialize delimiter (deserialize inner)) Field_validate"

primrec serialize :: "(pyval \<Rightarrow> str) \<Rightarrow> field \<Rightarrow> pyval \<Rightarrow> error + pyval" where
  "serialize builtin_str String = String_serialize builtin_str"
| "serialize builtin_str Integer = Integer_serialize"
| "serialize builtin_str (PositiveInteger name) = Integer_serialize"
| "serialize builtin_str Label = Label_serialize"
| "serialize builtin_str (List inner) = List_serialize (serialize builtin_str inner)"
| "serialize builtin_str (StringList delimiter inner) =
     List_serialize (serialize builtin_str inner)"

text \<open>
  The internal values a field legitimately holds, after the specification: text for \<^verbatim>\<open>String\<close>, an integer for \<^verbatim>\<open>Integer\<close>, a
  positive one for \<^verbatim>\<open>PositiveInteger\<close>, bytes that decode as UTF-8 for \<^verbatim>\<open>Label\<close> (other
  bytes are a fault of their producer), and a list of element values for the list
  fields.
\<close>

primrec holds :: "field \<Rightarrow> pyval \<Rightarrow> bool" where
  "holds String v = (case v of PStr s \<Rightarrow> True | _ \<Rightarrow> False)"
| "holds Integer v = (case v of PInt n \<Rightarrow> True | _ \<Rightarrow> False)"
| "holds (PositiveInteger name) v = (case v of PInt n \<Rightarrow> 0 < n | _ \<Rightarrow> False)"
| "holds Label v = (case v of PBytes b \<Rightarrow> utf8_decode_loop (map unat b) \<noteq> None | _ \<Rightarrow> False)"
| "holds (List inner) v = (case v of PList xs \<Rightarrow> list_all (holds inner) xs | _ \<Rightarrow> False)"
| "holds (StringList delimiter inner) v =
     (case v of PList xs \<Rightarrow> list_all (holds inner) xs | _ \<Rightarrow> False)"

text \<open>
  What the loop of \<^verbatim>\<open>fields.List._deserialize\<close> has collected at its end when no item raised
  anything but a \<^verbatim>\<open>ValidationError\<close>: the errors by index and the values. These closed
  forms serve to state what the loop computes.
\<close>

fun collected_errors ::
  "(pyval \<Rightarrow> error + pyval) \<Rightarrow> nat \<Rightarrow> pyval list \<Rightarrow> (nat \<times> messages) list" where
  "collected_errors inner idx [] = []"
| "collected_errors inner idx (x # xs) =
     (case inner x of
        Inl (ValidationError m d) \<Rightarrow> (idx, m) # collected_errors inner (Suc idx) xs
      | _ \<Rightarrow> collected_errors inner (Suc idx) xs)"

fun collected_values :: "(pyval \<Rightarrow> error + pyval) \<Rightarrow> pyval list \<Rightarrow> pyval list" where
  "collected_values inner [] = []"
| "collected_values inner (x # xs) =
     (case inner x of
        Inr v \<Rightarrow> v # collected_values inner xs
      | Inl (ValidationError m (Some d)) \<Rightarrow> d # collected_values inner xs
      | _ \<Rightarrow> collected_values inner xs)"

section \<open>UTF-8: encoding and decoding are inverse\<close>

lemma decode_two:
  "q < 32 \<Longrightarrow> r < 64 \<Longrightarrow> 0x80 \<le> q * 64 + r \<Longrightarrow>
   utf8_decode_char ((0xC0 + q) # (0x80 + r) # rest) = Some (q * 64 + r, rest)"
  by (simp add: utf8_decode_char_def is_continuation_def)

lemma decode_three:
  "a < 16 \<Longrightarrow> q < 64 \<Longrightarrow> r < 64 \<Longrightarrow> 0x800 \<le> a * 4096 + q * 64 + r \<Longrightarrow>
   \<not> is_surrogate (a * 4096 + q * 64 + r) \<Longrightarrow>
   utf8_decode_char ((0xE0 + a) # (0x80 + q) # (0x80 + r) # rest)
     = Some (a * 4096 + q * 64 + r, rest)"
  by (simp add: utf8_decode_char_def is_continuation_def)

lemma decode_four:
  "a < 8 \<Longrightarrow> p < 64 \<Longrightarrow> q < 64 \<Longrightarrow> r < 64 \<Longrightarrow>
   0x10000 \<le> a * 262144 + p * 4096 + q * 64 + r \<Longrightarrow>
   a * 262144 + p * 4096 + q * 64 + r < 0x110000 \<Longrightarrow>
   utf8_decode_char ((0xF0 + a) # (0x80 + p) # (0x80 + q) # (0x80 + r) # rest)
     = Some (a * 262144 + p * 4096 + q * 64 + r, rest)"
  by (simp add: utf8_decode_char_def is_continuation_def)

lemma divmod_digit: "r < m \<Longrightarrow> (x * m + r) div m = (x::nat) \<and> (x * m + r) mod m = r"
  by simp

lemma encode_two:
  assumes "q < 32" "r < 64" "0x80 \<le> q * 64 + r"
  shows "utf8_encode_char (q * 64 + r) = [0xC0 + q, 0x80 + r]"
proof -
  have "q * 64 + r < 0x800" using assms by simp
  moreover have "(q * 64 + r) div 64 = q" "(q * 64 + r) mod 64 = r" using assms by simp_all
  ultimately show ?thesis using assms by (simp add: utf8_encode_char_def)
qed

lemma encode_three:
  assumes "a < 16" "q < 64" "r < 64" "0x800 \<le> a * 4096 + q * 64 + r"
  shows "utf8_encode_char (a * 4096 + q * 64 + r) = [0xE0 + a, 0x80 + q, 0x80 + r]"
proof -
  define cp where "cp = a * 4096 + q * 64 + r"
  have e1: "cp = (a * 64 + q) * 64 + r" by (simp add: cp_def)
  have lt: "cp < 0x10000" using assms by (simp add: cp_def)
  have ge: "\<not> cp < 0x800" "\<not> cp < 0x80" using assms by (simp_all add: cp_def)
  have d3: "cp mod 64 = r" and d2a: "cp div 64 = a * 64 + q"
    unfolding e1 using divmod_digit [of r 64 "a * 64 + q"] assms by simp_all
  have d2: "cp div 64 mod 64 = q" and d1a: "cp div 64 div 64 = a"
    unfolding d2a using divmod_digit [of q 64 a] assms by simp_all
  have d1: "cp div 4096 = a"
    using d1a by (simp add: div_mult2_eq [symmetric])
  show ?thesis
    unfolding cp_def [symmetric] utf8_encode_char_def using lt ge d1 d2 d3 by simp
qed

lemma encode_four:
  assumes "a < 8" "p < 64" "q < 64" "r < 64" "0x10000 \<le> a * 262144 + p * 4096 + q * 64 + r"
  shows "utf8_encode_char (a * 262144 + p * 4096 + q * 64 + r)
           = [0xF0 + a, 0x80 + p, 0x80 + q, 0x80 + r]"
proof -
  define cp where "cp = a * 262144 + p * 4096 + q * 64 + r"
  have e1: "cp = ((a * 64 + p) * 64 + q) * 64 + r" by (simp add: cp_def)
  have ge: "\<not> cp < 0x10000" "\<not> cp < 0x800" "\<not> cp < 0x80"
    using assms by (simp_all add: cp_def)
  have d4: "cp mod 64 = r" and d3a: "cp div 64 = (a * 64 + p) * 64 + q"
    unfolding e1 using divmod_digit [of r 64 "(a * 64 + p) * 64 + q"] assms by simp_all
  have d3: "cp div 64 mod 64 = q" and d2a: "cp div 64 div 64 = a * 64 + p"
    unfolding d3a using divmod_digit [of q 64 "a * 64 + p"] assms by simp_all
  have d2b: "cp div 64 div 64 mod 64 = p" and d1a: "cp div 64 div 64 div 64 = a"
    unfolding d2a using divmod_digit [of p 64 a] assms by simp_all
  have d2c: "cp div 4096 = cp div 64 div 64"
    by (simp add: div_mult2_eq [symmetric])
  have d1: "cp div 262144 = a"
    using d1a by (simp add: div_mult2_eq [symmetric])
  show ?thesis
    unfolding cp_def [symmetric] utf8_encode_char_def using ge d1 d2b d2c d3 d4 by simp
qed

lemma encode_char_decodes:
  assumes "encodable cp"
  shows "utf8_decode_char (utf8_encode_char cp @ rest) = Some (cp, rest)"
proof -
  define r where "r = cp mod 64"
  define x where "x = cp div 64"
  define q where "q = x mod 64"
  define y where "y = x div 64"
  define p where "p = y mod 64"
  define a where "a = y div 64"
  have cp: "cp = x * 64 + r" and x: "x = y * 64 + q" and y: "y = a * 64 + p"
    by (simp_all add: r_def x_def q_def y_def p_def a_def)
  have small: "r < 64" "q < 64" "p < 64"
    by (simp_all add: r_def q_def p_def)
  consider (one) "cp < 0x80" | (two) "0x80 \<le> cp" "cp < 0x800"
    | (three) "0x800 \<le> cp" "cp < 0x10000" | (four) "0x10000 \<le> cp" "cp < 0x110000"
    using assms unfolding encodable_def by arith
  then show ?thesis
  proof cases
    case one
    then show ?thesis by (simp add: utf8_encode_char_def utf8_decode_char_def)
  next
    case two
    then have "x < 32" using cp by simp
    with two small encode_two [of x r] decode_two [of x r rest] show ?thesis
      by (simp add: cp [symmetric])
  next
    case three
    then have "y < 16" using cp x by simp
    moreover have cp3: "cp = y * 4096 + q * 64 + r" using cp x by simp
    moreover have "\<not> is_surrogate cp" using assms by (simp add: encodable_def)
    ultimately show ?thesis
      using three small encode_three [of y q r] decode_three [of y q r rest] by simp
  next
    case four
    then have "a < 8" using cp x y by simp
    moreover have cp4: "cp = a * 262144 + p * 4096 + q * 64 + r" using cp x y by simp
    ultimately show ?thesis
      using four small encode_four [of a p q r] decode_four [of a p q r rest] by simp
  qed
qed

lemma decode_char_encodes:
  assumes "utf8_decode_char bs = Some (cp, rest)"
  shows "encodable cp \<and> utf8_encode_char cp @ rest = bs"
proof (cases bs)
  case Nil
  with assms show ?thesis by (simp add: utf8_decode_char_def)
next
  case (Cons b0 tl)
  consider (one) "b0 < 0x80" | (cont) "0x80 \<le> b0" "b0 < 0xC0" | (two) "0xC0 \<le> b0" "b0 < 0xE0"
    | (three) "0xE0 \<le> b0" "b0 < 0xF0" | (four) "0xF0 \<le> b0" "b0 < 0xF8" | (bad) "0xF8 \<le> b0"
    by linarith
  then show ?thesis
  proof cases
    case one
    with assms Cons show ?thesis
      by (auto simp: utf8_decode_char_def utf8_encode_char_def encodable_def is_surrogate_def)
  next
    case cont
    with assms Cons show ?thesis by (simp add: utf8_decode_char_def)
  next
    case two
    with assms Cons obtain b1 where tl: "tl = b1 # rest" and c1: "is_continuation b1"
      and cp: "cp = (b0 - 0xC0) * 64 + (b1 - 0x80)" and ge: "0x80 \<le> cp"
      by (auto simp: utf8_decode_char_def Let_def split: list.splits if_splits)
    define q r where "q = b0 - 0xC0" and "r = b1 - 0x80"
    have b: "b0 = 0xC0 + q" "b1 = 0x80 + r" and lt: "q < 32" "r < 64"
      using two c1 by (auto simp: q_def r_def is_continuation_def)
    have cp2: "cp = q * 64 + r" by (simp add: cp q_def r_def)
    have "cp < 0x800" using lt cp2 by simp
    then have "encodable cp" by (simp add: encodable_def is_surrogate_def)
    moreover have "utf8_encode_char cp = [b0, b1]"
      using encode_two [of q r] lt ge cp2 b by simp
    ultimately show ?thesis using Cons tl by simp
  next
    case three
    with assms Cons obtain b1 b2 where tl: "tl = b1 # b2 # rest"
      and c: "is_continuation b1" "is_continuation b2"
      and cp: "cp = (b0 - 0xE0) * 4096 + (b1 - 0x80) * 64 + (b2 - 0x80)"
      and ge: "0x800 \<le> cp" and ns: "\<not> is_surrogate cp"
      by (auto simp: utf8_decode_char_def Let_def split: list.splits if_splits)
    define a q r where "a = b0 - 0xE0" and "q = b1 - 0x80" and "r = b2 - 0x80"
    have b: "b0 = 0xE0 + a" "b1 = 0x80 + q" "b2 = 0x80 + r"
      and lt: "a < 16" "q < 64" "r < 64"
      using three c by (auto simp: a_def q_def r_def is_continuation_def)
    have cp3: "cp = a * 4096 + q * 64 + r" by (simp add: cp a_def q_def r_def)
    have "cp < 0x110000" using lt cp3 by simp
    then have "encodable cp" using ns by (simp add: encodable_def)
    moreover have "utf8_encode_char cp = [b0, b1, b2]"
      using encode_three [of a q r] lt ge cp3 b by simp
    ultimately show ?thesis using Cons tl by simp
  next
    case four
    with assms Cons obtain b1 b2 b3 where tl: "tl = b1 # b2 # b3 # rest"
      and c: "is_continuation b1" "is_continuation b2" "is_continuation b3"
      and cp: "cp = (b0 - 0xF0) * 262144 + (b1 - 0x80) * 4096 + (b2 - 0x80) * 64 + (b3 - 0x80)"
      and ge: "0x10000 \<le> cp" and le: "cp < 0x110000"
      by (auto simp: utf8_decode_char_def Let_def split: list.splits if_splits)
    define a p q r
      where "a = b0 - 0xF0" and "p = b1 - 0x80" and "q = b2 - 0x80" and "r = b3 - 0x80"
    have b: "b0 = 0xF0 + a" "b1 = 0x80 + p" "b2 = 0x80 + q" "b3 = 0x80 + r"
      and lt: "a < 8" "p < 64" "q < 64" "r < 64"
      using four c by (auto simp: a_def p_def q_def r_def is_continuation_def)
    have cp4: "cp = a * 262144 + p * 4096 + q * 64 + r"
      by (simp add: cp a_def p_def q_def r_def)
    have "encodable cp" using ge le by (simp add: encodable_def is_surrogate_def)
    moreover have "utf8_encode_char cp = [b0, b1, b2, b3]"
      using encode_four [of a p q r] lt ge cp4 b by simp
    ultimately show ?thesis using Cons tl by simp
  next
    case bad
    with assms Cons show ?thesis by (simp add: utf8_decode_char_def)
  qed
qed

lemma utf8_decode_loop_unfold:
  "bs \<noteq> [] \<Longrightarrow>
   utf8_decode_loop bs =
     (case utf8_decode_char bs of
        None \<Rightarrow> None
      | Some (cp, rest) \<Rightarrow> map_option (Cons cp) (utf8_decode_loop rest))"
  by (cases bs) simp_all

lemma utf8_encode_char_nonempty: "utf8_encode_char cp \<noteq> []"
  by (simp add: utf8_encode_char_def)

lemma decode_encode_loop:
  "list_all encodable s \<Longrightarrow> utf8_decode_loop (concat (map utf8_encode_char s)) = Some s"
proof (induction s)
  case Nil
  then show ?case by simp
next
  case (Cons c s)
  let ?rest = "concat (map utf8_encode_char s)"
  have "utf8_decode_loop (utf8_encode_char c @ ?rest)
          = map_option (Cons c) (utf8_decode_loop ?rest)"
    using Cons.prems encode_char_decodes [of c ?rest]
    by (simp add: utf8_decode_loop_unfold utf8_encode_char_nonempty)
  with Cons show ?case by simp
qed

lemma encode_decode_loop:
  "utf8_decode_loop bs = Some s \<Longrightarrow>
   list_all encodable s \<and> concat (map utf8_encode_char s) = bs"
proof (induction bs arbitrary: s rule: utf8_decode_loop.induct)
  case 1
  then show ?case by simp
next
  case (2 b bs)
  from "2.prems" obtain cp rest s' where
    d: "utf8_decode_char (b # bs) = Some (cp, rest)" and
    l: "utf8_decode_loop rest = Some s'" and s: "s = cp # s'"
    by (auto split: option.splits)
  from "2.IH" [OF d refl l] decode_char_encodes [OF d] s show ?case by auto
qed

lemma utf8_encode_char_byte:
  assumes "encodable cp" "b \<in> set (utf8_encode_char cp)"
  shows "b < 256"
proof -
  have "cp < 0x800 \<Longrightarrow> cp div 64 < 32" "cp < 0x10000 \<Longrightarrow> cp div 4096 < 16"
    "cp < 0x110000 \<Longrightarrow> cp div 262144 < 8" "cp mod 64 < 64" "cp div 64 mod 64 < 64"
    "cp div 4096 mod 64 < 64"
    by simp_all
  with assms show ?thesis
    by (auto simp: utf8_encode_char_def encodable_def split: if_splits)
qed

lemma unat_of_nat_byte: "n < 256 \<Longrightarrow> unat (of_nat n :: byte) = n"
  by (simp add: unat_of_nat)

lemma map_unat_of_nat_bytes:
  "\<forall>n\<in>set ns. n < 256 \<Longrightarrow> map unat (map of_nat ns :: bytes) = ns"
  by (induction ns) (simp_all add: unat_of_nat_byte)

lemma map_of_nat_unat_bytes: "map of_nat (map unat (b :: bytes)) = b"
  by (induction b) simp_all

lemma bytes_decode_str_encode:
  assumes "str_encode s = Inr b"
  shows "bytes_decode b = Inr s"
proof -
  from assms have enc: "list_all encodable s"
    and b: "b = map of_nat (concat (map utf8_encode_char s))"
    by (auto simp: str_encode_def split: if_splits)
  have "\<forall>n\<in>set (concat (map utf8_encode_char s)). n < 256"
    using enc utf8_encode_char_byte by (auto simp: list_all_iff)
  then have "map unat b = concat (map utf8_encode_char s)"
    unfolding b by (rule map_unat_of_nat_bytes)
  then show ?thesis
    using decode_encode_loop [OF enc] by (simp add: bytes_decode_def)
qed

lemma str_encode_bytes_decode:
  assumes "bytes_decode b = Inr s"
  shows "str_encode s = Inr b"
proof -
  from assms have "utf8_decode_loop (map unat b) = Some s"
    by (auto simp: bytes_decode_def split: option.splits)
  from encode_decode_loop [OF this]
  have "list_all encodable s" and "concat (map utf8_encode_char s) = map unat b"
    by simp_all
  then show ?thesis
    using map_of_nat_unat_bytes [of b] by (simp add: str_encode_def del: map_map)
qed

lemma bytes_decode_cases:
  "bytes_decode b = Inl UnicodeDecodeError \<or> (\<exists>s. bytes_decode b = Inr s)"
  by (simp add: bytes_decode_def split: option.splits)

lemma str_encode_total:
  "list_all encodable s \<Longrightarrow> \<exists>b. str_encode s = Inr b"
  by (simp add: str_encode_def)

section \<open>Label\<close>

text \<open>
  C4. \<^verbatim>\<open>Label.deserialize\<close> returns a byte sequence unchanged, and returns the UTF-8 encoding
  of a text: for every text of Unicode scalar values, whatever its length or characters
  and also when it is empty, the result is the byte sequence that \<^verbatim>\<open>str.encode\<close> gives,
  and these bytes decode back to the text. The field adds no constraint of its own: the
  only texts refused are those without a UTF-8 encoding (a lone surrogate), on which
  \<^verbatim>\<open>encode\<close> raises \<^verbatim>\<open>UnicodeEncodeError\<close>.
\<close>

theorem Label_deserialize_bytes_unchanged_text_encoded:
  "deserialize Label (PBytes b) = Inr (PBytes b) \<and>
   (list_all encodable s \<longrightarrow>
      (\<exists>b'. deserialize Label (PStr s) = Inr (PBytes b') \<and> str_encode s = Inr b'
            \<and> bytes_decode b' = Inr s)) \<and>
   (\<not> list_all encodable s \<longrightarrow> deserialize Label (PStr s) = Inl UnicodeEncodeError)"
proof (intro conjI impI)
  show "deserialize Label (PBytes b) = Inr (PBytes b)"
    by (simp add: Field_deserialize_def Field_validate_def)
next
  assume "list_all encodable s"
  then obtain b' where b': "str_encode s = Inr b'"
    using str_encode_total by blast
  then have "deserialize Label (PStr s) = Inr (PBytes b')"
    by (simp add: Field_deserialize_def Field_validate_def)
  with b' bytes_decode_str_encode [OF b']
  show "\<exists>b'. deserialize Label (PStr s) = Inr (PBytes b') \<and> str_encode s = Inr b'
            \<and> bytes_decode b' = Inr s"
    by blast
next
  assume "\<not> list_all encodable s"
  then show "deserialize Label (PStr s) = Inl UnicodeEncodeError"
    by (simp add: Field_deserialize_def Field_validate_def str_encode_def)
qed

theorem Label_deserialize_bytes_unchanged_text_encoded_witness:
  "deserialize Label (PBytes (bytes_lit ''already-bytes'')) = Inr (PBytes (bytes_lit ''already-bytes''))
   \<and> list_all encodable (str_lit ''text'')
   \<and> deserialize Label (PStr (str_lit ''text'')) = Inr (PBytes (bytes_lit ''text''))
   \<and> deserialize Label (PStr []) = Inr (PBytes [])"
proof -
  have enc: "list_all encodable (str_lit ''text'')"
    by (simp add: str_lit_def encodable_def is_surrogate_def)
  have val: "str_encode (str_lit ''text'') = Inr (bytes_lit ''text'')"
    by (simp add: str_lit_def bytes_lit_def str_encode_def encodable_def is_surrogate_def
        utf8_encode_char_def)
  have empty: "str_encode [] = Inr []"
    by (simp add: str_encode_def)
  show ?thesis
    using Label_deserialize_bytes_unchanged_text_encoded
            [of "bytes_lit ''already-bytes''" "str_lit ''text''"]
          Label_deserialize_bytes_unchanged_text_encoded [of "[]" "[]"]
          enc val empty
    by auto
qed

text \<open>
  C5. \<^verbatim>\<open>Label.serialize\<close> of a byte sequence that is the UTF-8 encoding of a text returns that
  text; of a byte sequence that is the encoding of no text it fails with
  \<^verbatim>\<open>UnicodeDecodeError\<close>, which is not a validation error.
\<close>

theorem Label_serialize_decodes_or_raises:
  "(\<forall>s. str_encode s = Inr b \<longrightarrow> serialize builtin_str Label (PBytes b) = Inr (PStr s)) \<and>
   ((\<forall>s. str_encode s \<noteq> Inr b) \<longrightarrow>
      serialize builtin_str Label (PBytes b) = Inl UnicodeDecodeError
      \<and> \<not> is_validation_error UnicodeDecodeError)"
proof (intro conjI allI impI)
  fix s
  assume "str_encode s = Inr b"
  then show "serialize builtin_str Label (PBytes b) = Inr (PStr s)"
    by (simp add: bytes_decode_str_encode)
next
  assume none: "\<forall>s. str_encode s \<noteq> Inr b"
  have "bytes_decode b = Inl UnicodeDecodeError"
    using bytes_decode_cases [of b] none str_encode_bytes_decode by blast
  then show "serialize builtin_str Label (PBytes b) = Inl UnicodeDecodeError"
    by simp
next
  show "\<not> is_validation_error UnicodeDecodeError"
    by simp
qed

theorem Label_serialize_decodes_or_raises_witness:
  "str_encode (str_lit ''text'') = Inr (bytes_lit ''text'')
   \<and> serialize (\<lambda>v. []) Label (PBytes (bytes_lit ''text'')) = Inr (PStr (str_lit ''text''))
   \<and> (\<forall>s. str_encode s \<noteq> Inr [0xFF])
   \<and> serialize (\<lambda>v. []) Label (PBytes [0xFF]) = Inl UnicodeDecodeError"
proof -
  have val: "str_encode (str_lit ''text'') = Inr (bytes_lit ''text'')"
    by (simp add: str_lit_def bytes_lit_def str_encode_def encodable_def is_surrogate_def
        utf8_encode_char_def)
  have "bytes_decode [0xFF] = Inl UnicodeDecodeError"
    by (simp add: bytes_decode_def utf8_decode_char_def)
  then have none: "\<forall>s. str_encode s \<noteq> Inr [0xFF]"
    using bytes_decode_str_encode by fastforce
  show ?thesis
    using Label_serialize_decodes_or_raises [of "bytes_lit ''text''" "\<lambda>v. []"]
          Label_serialize_decodes_or_raises [of "[0xFF]" "\<lambda>v. []"] val none
    by blast
qed

text \<open>
  C10. \<^verbatim>\<open>Label.deserialize\<close> is idempotent on the inputs it accepts: what it returns is a
  byte sequence, and deserializing that again returns it unchanged.
\<close>

theorem Label_deserialize_idempotent:
  "deserialize Label x = Inr y \<Longrightarrow> deserialize Label y = Inr y \<and> (\<exists>b. y = PBytes b)"
  by (cases x) (auto simp: Field_deserialize_def Field_validate_def split: sum.splits)

theorem Label_deserialize_idempotent_witness:
  "deserialize Label (PStr (str_lit ''text'')) = Inr (PBytes (bytes_lit ''text''))
   \<and> deserialize Label (PBytes (bytes_lit ''text'')) = Inr (PBytes (bytes_lit ''text''))"
proof -
  have val: "deserialize Label (PStr (str_lit ''text'')) = Inr (PBytes (bytes_lit ''text''))"
    by (simp add: Field_deserialize_def Field_validate_def str_lit_def bytes_lit_def str_encode_def
        encodable_def is_surrogate_def utf8_encode_char_def)
  from Label_deserialize_idempotent [OF val] val show ?thesis by simp
qed

section \<open>Construction and the click type\<close>

text \<open>
  C9. The \<^verbatim>\<open>'click'\<close> keyword argument is consumed at construction: it becomes \<^verbatim>\<open>self.click\<close>
  (\<^verbatim>\<open>None\<close> when absent) and is not among the keyword arguments passed on to the base
  initialisation, which receives every other argument unchanged; \<^verbatim>\<open>StringList\<close> consumes
  \<^verbatim>\<open>'delimiter'\<close> in the same way. The click type is \<^verbatim>\<open>click.STRING\<close> in \<^verbatim>\<open>BaseField\<close> and so
  for every field class except \<^verbatim>\<open>Integer\<close> and its subclass \<^verbatim>\<open>PositiveInteger\<close>, where it is
  \<^verbatim>\<open>click.INT\<close>.
\<close>

theorem click_consumed_and_click_type:
  "fst (BaseField_init kwargs) = (case kwargs ''click'' of None \<Rightarrow> PNone | Some c \<Rightarrow> c) \<and>
   snd (BaseField_init kwargs) ''click'' = None \<and>
   (\<forall>k. k \<noteq> ''click'' \<longrightarrow> snd (BaseField_init kwargs) k = kwargs k) \<and>
   (case StringList_init kwargs of
      (delimiter, click, rest) \<Rightarrow>
        click = fst (BaseField_init kwargs) \<and> rest ''click'' = None \<and> rest ''delimiter'' = None
        \<and> (\<forall>k. k \<noteq> ''click'' \<and> k \<noteq> ''delimiter'' \<longrightarrow> rest k = kwargs k)) \<and>
   BaseField_click_type = click_STRING \<and>
   click_type f =
     (case f of Integer \<Rightarrow> click_INT | PositiveInteger name \<Rightarrow> click_INT | _ \<Rightarrow> click_STRING)"
  by (cases f)
     (simp_all add: BaseField_init_def StringList_init_def dict_pop_def
        BaseField_click_type_def Integer_click_type_def)

theorem click_consumed_and_click_type_witness:
  "fst (BaseField_init [''click'' \<mapsto> PStr (str_lit ''--label''), ''required'' \<mapsto> PInt 1])
     = PStr (str_lit ''--label'') \<and>
   snd (BaseField_init [''click'' \<mapsto> PStr (str_lit ''--label''), ''required'' \<mapsto> PInt 1]) ''click''
     = None \<and>
   ''required'' \<noteq> ''click'' \<and>
   snd (BaseField_init [''click'' \<mapsto> PStr (str_lit ''--label''), ''required'' \<mapsto> PInt 1]) ''required''
     = Some (PInt 1) \<and>
   click_type Integer = click_INT \<and> click_type (List Integer) = click_STRING"
  using click_consumed_and_click_type
          [of "[''click'' \<mapsto> PStr (str_lit ''--label''), ''required'' \<mapsto> PInt 1]" Integer]
        click_consumed_and_click_type
          [of "[''click'' \<mapsto> PStr (str_lit ''--label''), ''required'' \<mapsto> PInt 1]" "List Integer"]
  by simp

section \<open>Integer and PositiveInteger\<close>

lemmas int_literal_simps =
  int_literal_def is_int_space_def is_ascii_space_def is_unicode_space_def unicode_decimal_def
  ascii_decimal_def max_str_digits_def

lemma py_int_error: "py_int v = Inl e \<Longrightarrow> e = TypeError \<or> e = ValueError"
  by (cases v) (auto split: option.splits)

lemma Integer_deserialize_error:
  "py_int v = Inl e \<Longrightarrow> v \<noteq> PNone \<Longrightarrow>
   Integer_deserialize v = Inl (make_error ''Not a valid integer.'')"
  using py_int_error [of v e] by (auto simp: Integer_deserialize_def)

lemma Integer_deserialize_value:
  "py_int v = Inr n \<Longrightarrow> Integer_deserialize v = Inr (PInt n)"
  by (cases v) (auto simp: Integer_deserialize_def)

lemma unicode_decimal_ascii: "c < 128 \<Longrightarrow> unicode_decimal c = ascii_decimal c"
  by (simp add: unicode_decimal_def)

lemma unicode_decimal_examples:
  "unicode_decimal 0x661 = Some 1" "unicode_decimal 0x662 = Some 2"
  "unicode_decimal 0x663 = Some 3" "unicode_decimal 0xA0 = None"
  "unicode_decimal 0x3000 = None" "unicode_decimal 0x1D7FF = Some 9"
  by (simp_all add: unicode_decimal_def decimal_zeros_def)

lemma py_int_examples:
  "py_int (PStr [0x661, 0x662, 0x663]) = Inr 123"
  "py_int (PStr [0xA0, 0x2D, 0x34, 0x5F, 0x32, 0x3000]) = Inr (- 42)"
  "py_int (PStr [0x34, 0x32, 0x1F]) = Inl ValueError"
  "py_int (PBytes [0x20, 0x34, 0x32, 0x0A]) = Inr 42"
  "py_int (PBytes [0xA0, 0x34, 0x32]) = Inl ValueError"
  by (simp_all add: int_literal_def is_int_space_def is_ascii_space_def is_unicode_space_def
      max_str_digits_def unicode_decimal_examples unicode_decimal_ascii ascii_decimal_def)

lemma PositiveInteger_unparseable_examples:
  "deserialize (PositiveInteger (Some ''amount'')) (PStr [0x1C, 0x31])
     = Inl (ValidationError (Messages [''Not a valid integer.'']) None)"
  "deserialize (PositiveInteger (Some ''amount'')) (PStr [0x1C, 0x30])
     = Inl (ValidationError (Messages [''Not a valid integer.'']) None)"
  by (simp_all add: Field_deserialize_def Integer_deserialize_def make_error_def
      int_literal_simps)

lemma Integer_other_script_example:
  "deserialize Integer (PStr [0x661, 0x662, 0x663]) = Inr (PInt 123)"
  using py_int_examples(1)
  by (simp add: Field_deserialize_def Field_validate_def Integer_deserialize_def
      del: py_int.simps)

text \<open>
  C8. \<^verbatim>\<open>Integer.deserialize\<close> fails with \<^verbatim>\<open>ValidationError\<close> whenever \<^verbatim>\<open>int\<close> cannot read the
  input as an integer in base 10 (the message is \<^verbatim>\<open>Not a valid integer.\<close>, or
  \<^verbatim>\<open>Field may not be null.\<close> for \<^verbatim>\<open>None\<close>); \<^verbatim>\<open>PositiveInteger\<close> inherits this.
\<close>

theorem Integer_deserialize_rejects_unparseable:
  assumes "py_int v = Inl e"
  shows "deserialize Integer v
           = Inl (ValidationError
                    (Messages [if v = PNone then ''Field may not be null.''
                               else ''Not a valid integer.'']) None)
         \<and> deserialize (PositiveInteger name) v = deserialize Integer v
         \<and> (\<exists>e'. deserialize Integer v = Inl e' \<and> is_validation_error e')"
  using Integer_deserialize_error [OF assms]
  by (simp add: Field_deserialize_def make_error_def)

theorem Integer_deserialize_rejects_unparseable_witness:
  "py_int (PStr (str_lit ''not-a-number'')) = Inl ValueError \<and>
   deserialize Integer (PStr (str_lit ''not-a-number''))
     = Inl (ValidationError (Messages [''Not a valid integer.'']) None) \<and>
   py_int (PStr [0x1C, 0x34, 0x32]) = Inl ValueError \<and>
   deserialize Integer (PStr [0x1C, 0x34, 0x32])
     = Inl (ValidationError (Messages [''Not a valid integer.'']) None) \<and>
   py_int (PList []) = Inl TypeError \<and>
   deserialize Integer (PList [])
     = Inl (ValidationError (Messages [''Not a valid integer.'']) None)"
proof -
  have p: "py_int (PStr (str_lit ''not-a-number'')) = Inl ValueError"
    by (simp add: str_lit_def int_literal_simps)
  have q: "py_int (PStr [0x1C, 0x34, 0x32]) = Inl ValueError"
    by (simp add: int_literal_simps)
  have r: "py_int (PList []) = Inl TypeError"
    by simp
  from Integer_deserialize_rejects_unparseable [OF p]
       Integer_deserialize_rejects_unparseable [OF q]
       Integer_deserialize_rejects_unparseable [OF r] p q r
  show ?thesis
    by (simp add: str_lit_def del: py_int.simps)
qed

text \<open>
  C3, as the code has it. When \<^verbatim>\<open>int\<close> reads the input as \<open>n\<close>, \<^verbatim>\<open>PositiveInteger.deserialize\<close>
  fails for \<open>n \<le> 0\<close> with \<^verbatim>\<open>InvalidInputData\<close> carrying the message
  \<^verbatim>\<open><field name> must be a positive integer.\<close> (with the full stop), and returns \<open>n\<close>
  otherwise. So \<^verbatim>\<open>"0"\<close> and \<^verbatim>\<open>"-5"\<close> fail and \<^verbatim>\<open>"1"\<close> gives \<open>1\<close>.
\<close>

theorem PositiveInteger_deserialize_positive_or_error:
  assumes "py_int v = Inr n"
  shows "deserialize (PositiveInteger name) v =
           (if n \<le> 0
            then Inl (InvalidInputData (format_name name @ '' must be a positive integer.''))
            else Inr (PInt n))"
proof -
  have "v \<noteq> PNone" using assms by auto
  then show ?thesis
    using Integer_deserialize_value [OF assms] by (simp add: Field_deserialize_def)
qed

theorem PositiveInteger_deserialize_positive_or_error_witness:
  "py_int (PStr (str_lit ''0'')) = Inr 0 \<and>
   deserialize (PositiveInteger (Some ''amount'')) (PStr (str_lit ''0''))
     = Inl (InvalidInputData ''amount must be a positive integer.'') \<and>
   py_int (PStr (str_lit ''-5'')) = Inr (- 5) \<and>
   deserialize (PositiveInteger (Some ''amount'')) (PStr (str_lit ''-5''))
     = Inl (InvalidInputData ''amount must be a positive integer.'') \<and>
   py_int (PStr (str_lit ''1'')) = Inr 1 \<and>
   deserialize (PositiveInteger (Some ''amount'')) (PStr (str_lit ''1'')) = Inr (PInt 1)"
proof -
  have p0: "py_int (PStr (str_lit ''0'')) = Inr 0"
    and p5: "py_int (PStr (str_lit ''-5'')) = Inr (- 5)"
    and p1: "py_int (PStr (str_lit ''1'')) = Inr 1"
    by (simp_all add: str_lit_def int_literal_simps)
  show ?thesis
    using PositiveInteger_deserialize_positive_or_error [OF p0, of "Some ''amount''"]
          PositiveInteger_deserialize_positive_or_error [OF p5, of "Some ''amount''"]
          PositiveInteger_deserialize_positive_or_error [OF p1, of "Some ''amount''"]
          p0 p5 p1
    by (simp add: format_name_def)
qed

text \<open>
  C3, as the specification words it, fails: for the input \<^verbatim>\<open>"0"\<close> the error is not a
  \<^verbatim>\<open>ValidationError\<close> and its message is not \<^verbatim>\<open>amount must be a positive integer\<close>.
\<close>

theorem PositiveInteger_error_counterexample:
  "deserialize (PositiveInteger (Some ''amount'')) (PStr (str_lit ''0''))
     = Inl (InvalidInputData ''amount must be a positive integer.'') \<and>
   (\<forall>d. deserialize (PositiveInteger (Some ''amount'')) (PStr (str_lit ''0''))
          \<noteq> Inl (ValidationError (Messages [''amount must be a positive integer'']) d)) \<and>
   deserialize (PositiveInteger (Some ''amount'')) (PStr (str_lit ''0''))
     \<noteq> Inl (InvalidInputData ''amount must be a positive integer'')"
  by (simp add: str_lit_def Field_deserialize_def Integer_deserialize_def int_literal_simps
      format_name_def)

section \<open>StringList: inputs that are neither a list nor text\<close>

text \<open>
  C6, as the code has it. With a text delimiter, \<^verbatim>\<open>StringList.deserialize\<close> fails on every
  input that is neither a list nor text: \<^verbatim>\<open>None\<close> is refused with \<^verbatim>\<open>ValidationError\<close> before
  \<^verbatim>\<open>_deserialize\<close> runs; a byte sequence makes \<^verbatim>\<open>split\<close> raise \<^verbatim>\<open>TypeError\<close>; an integer has no
  \<^verbatim>\<open>split\<close> and raises \<^verbatim>\<open>AttributeError\<close>.
\<close>

theorem StringList_deserialize_other_inputs:
  assumes "\<forall>xs. v \<noteq> PList xs" "\<forall>s. v \<noteq> PStr s"
  shows "deserialize (StringList (PStr sep) inner) v =
           Inl (case v of
                  PNone \<Rightarrow> ValidationError (Messages [''Field may not be null.'']) None
                | PBytes b \<Rightarrow> TypeError
                | _ \<Rightarrow> AttributeError)"
  using assms
  by (cases v)
     (simp_all add: Field_deserialize_def StringList_deserialize_def make_error_def)

theorem StringList_deserialize_other_inputs_witness:
  "(\<forall>xs. PBytes (bytes_lit ''a,b'') \<noteq> PList xs) \<and> (\<forall>s. PBytes (bytes_lit ''a,b'') \<noteq> PStr s) \<and>
   deserialize (StringList (PStr (str_lit '','')) String) (PBytes (bytes_lit ''a,b''))
     = Inl TypeError"
  using StringList_deserialize_other_inputs
          [of "PBytes (bytes_lit ''a,b'')" "str_lit '',''" String]
  by simp

text \<open>
  C6, as the specification words it, fails: an integer input raises \<^verbatim>\<open>AttributeError\<close>,
  which is not a validation error.
\<close>

theorem StringList_integer_input_counterexample:
  "deserialize (StringList (PStr (str_lit '','')) String) (PInt 5) = Inl AttributeError \<and>
   \<not> is_validation_error AttributeError"
  by (simp add: Field_deserialize_def StringList_deserialize_def)

section \<open>The loop over the elements of a list\<close>

lemma List_loop_converted:
  "list_all2 (\<lambda>x v. inner x = Inr v) xs vs \<Longrightarrow>
   List_loop inner idx xs result errors = Inr (result @ vs, errors)"
  by (induction xs vs arbitrary: idx result rule: list_all2_induct) simp_all

lemma all_converted:
  "\<forall>x\<in>set xs. \<exists>v. inner x = Inr v \<Longrightarrow> \<exists>vs. list_all2 (\<lambda>x v. inner x = Inr v) xs vs"
proof (induction xs)
  case Nil
  then show ?case by simp
next
  case (Cons x xs)
  then obtain v vs where "inner x = Inr v" "list_all2 (\<lambda>x v. inner x = Inr v) xs vs"
    by auto
  then have "list_all2 (\<lambda>x v. inner x = Inr v) (x # xs) (v # vs)" by simp
  then show ?case by blast
qed

lemma List_loop_collected:
  assumes "\<forall>x\<in>set xs. \<forall>e. inner x = Inl e \<longrightarrow> (\<exists>m d. e = ValidationError m d)"
  shows "List_loop inner idx xs result errors =
           Inr (result @ collected_values inner xs, errors @ collected_errors inner idx xs)"
  using assms
proof (induction xs arbitrary: idx result errors)
  case Nil
  then show ?case by simp
next
  case (Cons x xs)
  show ?case
  proof (cases "inner x")
    case (Inr v)
    with Cons show ?thesis by simp
  next
    case (Inl e)
    with Cons.prems obtain m d where e: "e = ValidationError m d" by auto
    with Inl Cons show ?thesis by (cases d) simp_all
  qed
qed

lemma List_loop_other_error:
  assumes "\<forall>y\<in>set pre. \<forall>e'. inner y = Inl e' \<longrightarrow> (\<exists>m d. e' = ValidationError m d)"
    and "inner x = Inl e" and "\<forall>m d. e \<noteq> ValidationError m d"
  shows "List_loop inner idx (pre @ x # post) result errors = Inl e"
  using assms
proof (induction pre arbitrary: idx result errors)
  case Nil
  then show ?case by (cases e) simp_all
next
  case (Cons y pre)
  show ?case
  proof (cases "inner y")
    case (Inr v)
    with Cons show ?thesis by simp
  next
    case (Inl e')
    with Cons.prems obtain m d where "e' = ValidationError m d" by auto
    with Inl Cons show ?thesis by simp
  qed
qed

lemma collected_errors_iff:
  "(i, m) \<in> set (collected_errors inner idx xs) \<longleftrightarrow>
   idx \<le> i \<and> i < idx + length xs \<and> (\<exists>d. inner (xs ! (i - idx)) = Inl (ValidationError m d))"
proof (induction xs arbitrary: idx)
  case Nil
  then show ?case by simp
next
  case (Cons x xs)
  have nth: "(x # xs) ! (i - idx) = xs ! (i - Suc idx)" if "idx < i"
  proof -
    from that have "i - idx = Suc (i - Suc idx)" by arith
    then show ?thesis by simp
  qed
  have tail: "(i, m) \<in> set (collected_errors inner (Suc idx) xs) \<longleftrightarrow>
              idx < i \<and> i < idx + length (x # xs)
              \<and> (\<exists>d. inner ((x # xs) ! (i - idx)) = Inl (ValidationError m d))"
    unfolding Cons.IH [of "Suc idx"] using nth by auto
  show ?case
  proof (cases "i = idx")
    case True
    then show ?thesis using tail
      by (auto split: sum.splits error.splits)
  next
    case False
    then show ?thesis using tail
      by (auto split: sum.splits error.splits)
  qed
qed

lemma collected_errors_sorted:
  "sorted_wrt (<) (map fst (collected_errors inner idx xs))"
proof (induction xs arbitrary: idx)
  case Nil
  then show ?case by simp
next
  case (Cons x xs)
  have "\<forall>p\<in>set (collected_errors inner (Suc idx) xs). idx < fst p"
    using collected_errors_iff [of _ _ inner "Suc idx" xs] by fastforce
  with Cons [of "Suc idx"] show ?case
    by (auto split: sum.splits error.splits)
qed

lemma collected_errors_nonempty:
  assumes "x \<in> set xs" "inner x = Inl (ValidationError m d)"
  shows "collected_errors inner idx xs \<noteq> []"
proof -
  from assms(1) obtain i where "i < length xs" "xs ! i = x"
    by (auto simp: in_set_conv_nth)
  with assms(2) have "(idx + i, m) \<in> set (collected_errors inner idx xs)"
    by (auto simp: collected_errors_iff)
  then show ?thesis by auto
qed

lemma deserialize_List_PList:
  "deserialize (List inner) (PList xs) = List_deserialize (deserialize inner) (PList xs)"
  "deserialize (StringList delimiter inner) (PList xs)
     = List_deserialize (deserialize inner) (PList xs)"
  by (simp_all add: Field_deserialize_def Field_validate_def StringList_deserialize_def
      split: sum.splits)

lemma deserialize_List_converted:
  "list_all2 (\<lambda>x v. deserialize inner x = Inr v) xs vs \<Longrightarrow>
   deserialize (List inner) (PList xs) = Inr (PList vs)"
  using List_loop_converted [of "deserialize inner" xs vs 0 "[]" "[]"]
  by (simp add: deserialize_List_PList del: deserialize.simps)

section \<open>List: conversion of the elements\<close>

text \<open>
  C7, as the code has it. For a list input, \<^verbatim>\<open>List.deserialize\<close> converts the items with the
  element field's \<^verbatim>\<open>deserialize\<close>, in order. When every item converts, the result holds
  the converted values at the same indices. When items fail and every failure is a
  \<^verbatim>\<open>ValidationError\<close>, the whole fails with a \<^verbatim>\<open>ValidationError\<close> whose messages are keyed,
  in increasing order, by exactly the indices of the failing items, each with the
  messages of its item. A failure of another kind ends the loop at once and is the
  failure of the whole, without an index.
\<close>

theorem List_deserialize_elements:
  "((\<forall>x\<in>set xs. \<exists>v. deserialize inner x = Inr v) \<longrightarrow>
      (\<exists>vs. deserialize (List inner) (PList xs) = Inr (PList vs)
          \<and> length vs = length xs
          \<and> (\<forall>i<length xs. deserialize inner (xs ! i) = Inr (vs ! i))))
   \<and>
   ((\<forall>x\<in>set xs. \<forall>e. deserialize inner x = Inl e \<longrightarrow> (\<exists>m d. e = ValidationError m d))
      \<and> (\<exists>x\<in>set xs. \<exists>e. deserialize inner x = Inl e) \<longrightarrow>
      (\<exists>errs vd. deserialize (List inner) (PList xs) = Inl (ValidationError (ByIndex errs) vd)
          \<and> sorted_wrt (<) (map fst errs)
          \<and> (\<forall>i m. (i, m) \<in> set errs \<longleftrightarrow>
                i < length xs
                \<and> (\<exists>d. deserialize inner (xs ! i) = Inl (ValidationError m d)))))
   \<and>
   (\<forall>pre x post e.
      xs = pre @ x # post
      \<and> (\<forall>y\<in>set pre. \<forall>e'. deserialize inner y = Inl e' \<longrightarrow> (\<exists>m d. e' = ValidationError m d))
      \<and> deserialize inner x = Inl e \<and> (\<forall>m d. e \<noteq> ValidationError m d) \<longrightarrow>
      deserialize (List inner) (PList xs) = Inl e)"
proof (intro conjI impI allI)
  assume "\<forall>x\<in>set xs. \<exists>v. deserialize inner x = Inr v"
  then obtain vs where vs: "list_all2 (\<lambda>x v. deserialize inner x = Inr v) xs vs"
    using all_converted by blast
  from deserialize_List_converted [OF vs] vs
  show "\<exists>vs. deserialize (List inner) (PList xs) = Inr (PList vs)
          \<and> length vs = length xs
          \<and> (\<forall>i<length xs. deserialize inner (xs ! i) = Inr (vs ! i))"
    by (auto simp: list_all2_conv_all_nth)
next
  assume a: "(\<forall>x\<in>set xs. \<forall>e. deserialize inner x = Inl e \<longrightarrow> (\<exists>m d. e = ValidationError m d))
      \<and> (\<exists>x\<in>set xs. \<exists>e. deserialize inner x = Inl e)"
  let ?errs = "collected_errors (deserialize inner) 0 xs"
  from a obtain x m d where "x \<in> set xs" "deserialize inner x = Inl (ValidationError m d)"
    by blast
  then have ne: "?errs \<noteq> []" by (rule collected_errors_nonempty)
  have loop: "List_loop (deserialize inner) 0 xs [] [] =
                Inr (collected_values (deserialize inner) xs, ?errs)"
    using a List_loop_collected [of xs "deserialize inner" 0 "[]" "[]"] by simp
  have "deserialize (List inner) (PList xs) =
          Inl (ValidationError (ByIndex ?errs)
                 (Some (PList (collected_values (deserialize inner) xs))))"
    using loop ne by (simp add: deserialize_List_PList del: deserialize.simps)
  moreover have "sorted_wrt (<) (map fst ?errs)"
    by (rule collected_errors_sorted)
  moreover have "\<forall>i m. (i, m) \<in> set ?errs \<longleftrightarrow>
                  i < length xs
                  \<and> (\<exists>d. deserialize inner (xs ! i) = Inl (ValidationError m d))"
    by (simp add: collected_errors_iff)
  ultimately
  show "\<exists>errs vd. deserialize (List inner) (PList xs) = Inl (ValidationError (ByIndex errs) vd)
          \<and> sorted_wrt (<) (map fst errs)
          \<and> (\<forall>i m. (i, m) \<in> set errs \<longleftrightarrow>
                i < length xs
                \<and> (\<exists>d. deserialize inner (xs ! i) = Inl (ValidationError m d)))"
    by blast
next
  fix pre x post e
  assume a: "xs = pre @ x # post
      \<and> (\<forall>y\<in>set pre. \<forall>e'. deserialize inner y = Inl e' \<longrightarrow> (\<exists>m d. e' = ValidationError m d))
      \<and> deserialize inner x = Inl e \<and> (\<forall>m d. e \<noteq> ValidationError m d)"
  then have "List_loop (deserialize inner) 0 (pre @ x # post) [] [] = Inl e"
    using List_loop_other_error [of pre "deserialize inner" x e 0 post "[]" "[]"] by blast
  with a show "deserialize (List inner) (PList xs) = Inl e"
    by (simp add: deserialize_List_PList del: deserialize.simps)
qed

lemma deserialize_Integer_examples:
  "deserialize Integer (PStr (str_lit ''1'')) = Inr (PInt 1)"
  "deserialize Integer (PStr (str_lit ''x'')) = Inl (ValidationError (Messages [''Not a valid integer.'']) None)"
  "deserialize Integer (PStr (str_lit ''3'')) = Inr (PInt 3)"
  by (simp_all add: str_lit_def Field_deserialize_def Field_validate_def Integer_deserialize_def
      int_literal_simps make_error_def)

theorem List_deserialize_elements_witness:
  "(\<exists>errs vd.
      deserialize (List Integer) (PList [PStr (str_lit ''1''), PStr (str_lit ''x''), PStr (str_lit ''3'')])
        = Inl (ValidationError (ByIndex errs) vd)
      \<and> map fst errs = [1])
   \<and> (\<exists>vs.
        deserialize (List Integer) (PList [PStr (str_lit ''1''), PStr (str_lit ''3'')])
          = Inr (PList vs)
        \<and> length vs = 2)
   \<and> deserialize (List Label) (PList [PBytes [], PInt 5, PStr []]) = Inl AttributeError"
proof -
  let ?xs = "[PStr (str_lit ''1''), PStr (str_lit ''x''), PStr (str_lit ''3'')]"
  let ?ys = "[PStr (str_lit ''1''), PStr (str_lit ''3'')]"
  let ?zs = "[PBytes [], PInt 5, PStr []]"
  note ex = deserialize_Integer_examples
  have h2: "(\<forall>x\<in>set ?xs. \<forall>e. deserialize Integer x = Inl e \<longrightarrow> (\<exists>m d. e = ValidationError m d))
      \<and> (\<exists>x\<in>set ?xs. \<exists>e. deserialize Integer x = Inl e)"
    using ex by (simp del: deserialize.simps)
  from List_deserialize_elements [of ?xs Integer] h2
  obtain errs vd where r: "deserialize (List Integer) (PList ?xs) = Inl (ValidationError (ByIndex errs) vd)"
    and s: "sorted_wrt (<) (map fst errs)"
    and m: "\<forall>i m. (i, m) \<in> set errs \<longleftrightarrow>
                i < length ?xs \<and> (\<exists>d. deserialize Integer (?xs ! i) = Inl (ValidationError m d))"
    by blast
  have "deserialize (List Integer) (PList ?xs)
          = Inl (ValidationError (ByIndex [(1, Messages [''Not a valid integer.''])])
                   (Some (PList [PInt 1, PInt 3])))"
    using ex by (simp add: deserialize_List_PList del: deserialize.simps)
  with r have "map fst errs = [1]" by simp
  with r have first: "\<exists>errs vd. deserialize (List Integer) (PList ?xs)
        = Inl (ValidationError (ByIndex errs) vd) \<and> map fst errs = [1]"
    by (intro exI [of _ errs] exI [of _ vd] conjI)
  have h1: "\<forall>x\<in>set ?ys. \<exists>v. deserialize Integer x = Inr v"
    using ex by (simp del: deserialize.simps)
  from List_deserialize_elements [of ?ys Integer] h1
  have "\<exists>vs. deserialize (List Integer) (PList ?ys) = Inr (PList vs) \<and> length vs = length ?ys"
    by blast
  then have second: "\<exists>vs. deserialize (List Integer) (PList ?ys) = Inr (PList vs)
                         \<and> length vs = 2"
    by (simp add: numeral_2_eq_2 del: deserialize.simps)
  have lab: "deserialize Label (PBytes []) = Inr (PBytes [])"
    "deserialize Label (PInt 5) = Inl AttributeError"
    by (simp_all add: Field_deserialize_def Field_validate_def)
  have h3: "?zs = [PBytes []] @ PInt 5 # [PStr []]
      \<and> (\<forall>y\<in>set [PBytes []]. \<forall>e'. deserialize Label y = Inl e' \<longrightarrow> (\<exists>m d. e' = ValidationError m d))
      \<and> deserialize Label (PInt 5) = Inl AttributeError \<and> (\<forall>m d. AttributeError \<noteq> ValidationError m d)"
    using lab by (simp del: deserialize.simps)
  from List_deserialize_elements [of ?zs Label] h3
  have third: "deserialize (List Label) (PList ?zs) = Inl AttributeError"
    by blast
  from first second third show ?thesis by (intro conjI)
qed

text \<open>
  C7, as the specification words it, fails: an element conversion that fails with an
  error other than \<^verbatim>\<open>ValidationError\<close> makes the whole fail with that error, which names
  no index.
\<close>

theorem List_element_other_error_counterexample:
  "deserialize Label (PInt 5) = Inl AttributeError \<and>
   deserialize (List Label) (PList [PInt 5]) = Inl AttributeError \<and>
   \<not> is_validation_error AttributeError"
  by (simp add: Field_deserialize_def Field_validate_def)

section \<open>StringList: splitting\<close>

lemma split_loop_nonempty: "split_loop sep cur s \<noteq> []"
  by (induction sep cur s rule: split_loop.induct) auto

lemma join_Cons_nonempty: "ys \<noteq> [] \<Longrightarrow> join sep (x # ys) = x @ sep @ join sep ys"
  by (cases ys) simp_all

lemma join_split_loop: "join sep (split_loop sep cur s) = cur @ s"
proof (induction sep cur s rule: split_loop.induct)
  case (1 sep cur)
  then show ?case by simp
next
  case (2 sep cur c cs)
  show ?case
  proof (cases "sep \<noteq> [] \<and> take (length sep) (c # cs) = sep")
    case True
    then have "sep @ drop (length sep) (c # cs) = c # cs"
      using append_take_drop_id [of "length sep" "c # cs"] by simp
    with True "2.IH"(1) show ?thesis
      by (simp add: join_Cons_nonempty split_loop_nonempty del: join.simps)
  next
    case False
    then have "split_loop sep cur (c # cs) = split_loop sep (cur @ [c]) cs" by auto
    with False "2.IH"(2) show ?thesis by simp
  qed
qed

lemma occurrence_inside:
  assumes "sep \<noteq> []" "p = u @ sep @ v"
  shows "length u < length p"
proof -
  from assms(2) have "length p = length u + length sep + length v" by simp
  moreover from assms(1) have "0 < length sep" by simp
  ultimately show ?thesis by linarith
qed

lemma split_loop_segments:
  assumes "sep \<noteq> []" "\<forall>u v. cur @ s = u @ sep @ v \<longrightarrow> length cur \<le> length u"
  shows "\<forall>p\<in>set (split_loop sep cur s). \<forall>u v. p \<noteq> u @ sep @ v"
  using assms
proof (induction sep cur s rule: split_loop.induct)
  case (1 sep cur)
  have "cur \<noteq> u @ sep @ v" for u v
  proof
    assume eq: "cur = u @ sep @ v"
    then have "cur @ [] = u @ sep @ v" by simp
    with "1.prems"(2) have "length cur \<le> length u" by blast
    with occurrence_inside [OF "1.prems"(1) eq] show False by simp
  qed
  then show ?case by simp
next
  case (2 sep cur c cs)
  show ?case
  proof (cases "sep \<noteq> [] \<and> take (length sep) (c # cs) = sep")
    case True
    have cur: "cur \<noteq> u @ sep @ v" for u v
    proof
      assume eq: "cur = u @ sep @ v"
      then have "cur @ c # cs = u @ sep @ (v @ c # cs)" by simp
      with "2.prems"(2) have "length cur \<le> length u" by blast
      with occurrence_inside [OF "2.prems"(1) eq] show False by simp
    qed
    have "\<forall>u v. [] @ drop (length sep) (c # cs) = u @ sep @ v \<longrightarrow> length ([] :: 'a list) \<le> length u"
      by simp
    with "2.IH"(1) [OF True "2.prems"(1)]
    have rest: "\<forall>p\<in>set (split_loop sep [] (drop (length sep) (c # cs))). \<forall>u v. p \<noteq> u @ sep @ v"
      by blast
    from True
    have "split_loop sep cur (c # cs) = cur # split_loop sep [] (drop (length sep) (c # cs))"
      by simp
    with cur rest show ?thesis by simp
  next
    case False
    have "\<forall>u v. (cur @ [c]) @ cs = u @ sep @ v \<longrightarrow> length (cur @ [c]) \<le> length u"
    proof (intro allI impI)
      fix u v
      assume eq: "(cur @ [c]) @ cs = u @ sep @ v"
      then have eq': "cur @ c # cs = u @ sep @ v" by simp
      with "2.prems"(2) have le: "length cur \<le> length u" by blast
      have "length u \<noteq> length cur"
      proof
        assume "length u = length cur"
        with eq' have "c # cs = sep @ v"
          using append_eq_append_conv [of cur u "c # cs" "sep @ v"] by metis
        then have "take (length sep) (c # cs) = take (length sep) (sep @ v)"
          by (rule arg_cong)
        then have "take (length sep) (c # cs) = sep"
          by (simp only: append_eq_conv_conj take_all_iff order_refl take_append diff_self_eq_0 take_0 append_Nil2)
        with False "2.prems"(1) show False by blast
      qed
      with le show "length (cur @ [c]) \<le> length u" by simp
    qed
    with "2.IH"(2) [OF False "2.prems"(1)]
    have "\<forall>p\<in>set (split_loop sep (cur @ [c]) cs). \<forall>u v. p \<noteq> u @ sep @ v"
      by blast
    moreover from False
    have "split_loop sep cur (c # cs) = split_loop sep (cur @ [c]) cs" by auto
    ultimately show ?thesis by (simp only:)
  qed
qed

text \<open>
  C1, as the code has it. \<^verbatim>\<open>StringList.deserialize\<close> of a list does what
  \<^verbatim>\<open>List.deserialize\<close> does, without splitting. Of a text, with a non-empty text
  delimiter, it does what \<^verbatim>\<open>List.deserialize\<close> does on the list of segments that
  \<^verbatim>\<open>split\<close> gives: joined with the delimiter the segments give the text back (nothing is
  trimmed and no empty segment is dropped) and no segment contains the delimiter. With
  the empty text as delimiter \<^verbatim>\<open>split\<close> raises \<^verbatim>\<open>ValueError\<close>. The conversion of a list
  applies the element field's \<^verbatim>\<open>deserialize\<close> to each item, in order. The delimiter is
  the \<^verbatim>\<open>'delimiter'\<close> argument of the construction, and \<^verbatim>\<open>','\<close> without one.
\<close>

theorem StringList_deserialize_splits:
  "deserialize (StringList delimiter inner) (PList xs) = deserialize (List inner) (PList xs)
   \<and> (sep \<noteq> [] \<longrightarrow>
        deserialize (StringList (PStr sep) inner) (PStr s)
          = deserialize (List inner) (PList (map PStr (split_loop sep [] s)))
        \<and> join sep (split_loop sep [] s) = s
        \<and> (\<forall>p\<in>set (split_loop sep [] s). \<forall>u v. p \<noteq> u @ sep @ v))
   \<and> deserialize (StringList (PStr []) inner) (PStr s) = Inl ValueError
   \<and> ((\<forall>x\<in>set xs. \<exists>v. deserialize inner x = Inr v) \<longrightarrow>
        (\<exists>vs. deserialize (StringList delimiter inner) (PList xs) = Inr (PList vs)
            \<and> length vs = length xs
            \<and> (\<forall>i<length xs. deserialize inner (xs ! i) = Inr (vs ! i))))
   \<and> fst (StringList_init kwargs)
         = (case kwargs ''delimiter'' of None \<Rightarrow> PStr (str_lit '','') | Some d \<Rightarrow> d)
   \<and> (kwargs ''delimiter'' = None \<longrightarrow>
        deserialize (StringList (fst (StringList_init kwargs)) inner) (PStr s)
          = deserialize (List inner) (PList (map PStr (split_loop (str_lit '','') [] s))))
   \<and> (kwargs ''delimiter'' = Some (PStr sep) \<and> sep \<noteq> [] \<longrightarrow>
        deserialize (StringList (fst (StringList_init kwargs)) inner) (PStr s)
          = deserialize (List inner) (PList (map PStr (split_loop sep [] s))))"
proof -
  have split: "deserialize (StringList (PStr d) inner) (PStr s)
                 = deserialize (List inner) (PList (map PStr (split_loop d [] s)))"
    if "d \<noteq> []" for d
    using that by (simp add: Field_deserialize_def StringList_deserialize_def split_on_def)
  have init: "fst (StringList_init kwargs)
                = (case kwargs ''delimiter'' of None \<Rightarrow> PStr (str_lit '','') | Some d \<Rightarrow> d)"
    by (simp add: StringList_init_def dict_pop_def split: prod.splits)
  have comma: "str_lit '','' \<noteq> []"
    by (simp add: str_lit_def)
  show ?thesis
  proof (intro conjI impI)
    show "deserialize (StringList delimiter inner) (PList xs)
            = deserialize (List inner) (PList xs)"
      by (simp add: deserialize_List_PList del: deserialize.simps)
  next
    assume "sep \<noteq> []"
    then show "deserialize (StringList (PStr sep) inner) (PStr s)
            = deserialize (List inner) (PList (map PStr (split_loop sep [] s)))"
      by (rule split)
  next
    show "join sep (split_loop sep [] s) = s"
      by (simp add: join_split_loop)
  next
    assume "sep \<noteq> []"
    then show "\<forall>p\<in>set (split_loop sep [] s). \<forall>u v. p \<noteq> u @ sep @ v"
      by (rule split_loop_segments) simp
  next
    show "deserialize (StringList (PStr []) inner) (PStr s) = Inl ValueError"
      by (simp add: Field_deserialize_def StringList_deserialize_def split_on_def)
  next
    assume "\<forall>x\<in>set xs. \<exists>v. deserialize inner x = Inr v"
    then obtain vs where vs: "list_all2 (\<lambda>x v. deserialize inner x = Inr v) xs vs"
      using all_converted by blast
    from deserialize_List_converted [OF vs] vs
    show "\<exists>vs. deserialize (StringList delimiter inner) (PList xs) = Inr (PList vs)
              \<and> length vs = length xs
              \<and> (\<forall>i<length xs. deserialize inner (xs ! i) = Inr (vs ! i))"
      by (auto simp: deserialize_List_PList list_all2_conv_all_nth simp del: deserialize.simps)
  next
    show "fst (StringList_init kwargs)
            = (case kwargs ''delimiter'' of None \<Rightarrow> PStr (str_lit '','') | Some d \<Rightarrow> d)"
      by (rule init)
  next
    assume "kwargs ''delimiter'' = None"
    with init have "fst (StringList_init kwargs) = PStr (str_lit '','')" by simp
    with split [OF comma]
    show "deserialize (StringList (fst (StringList_init kwargs)) inner) (PStr s)
            = deserialize (List inner) (PList (map PStr (split_loop (str_lit '','') [] s)))"
      by (simp del: deserialize.simps)
  next
    assume a: "kwargs ''delimiter'' = Some (PStr sep) \<and> sep \<noteq> []"
    with init have "fst (StringList_init kwargs) = PStr sep" by simp
    with split [of sep] a
    show "deserialize (StringList (fst (StringList_init kwargs)) inner) (PStr s)
            = deserialize (List inner) (PList (map PStr (split_loop sep [] s)))"
      by (simp del: deserialize.simps)
  qed
qed

theorem StringList_deserialize_splits_witness:
  "deserialize (StringList (PStr (str_lit '','')) String) (PStr (str_lit ''a,b,c''))
     = Inr (PList [PStr (str_lit ''a''), PStr (str_lit ''b''), PStr (str_lit ''c'')])
   \<and> deserialize (StringList (PStr (str_lit '';'')) String) (PStr (str_lit ''a;b''))
     = Inr (PList [PStr (str_lit ''a''), PStr (str_lit ''b'')])
   \<and> deserialize (StringList (PStr (str_lit '','')) String) (PStr (str_lit '', a,,b''))
     = Inr (PList [PStr [], PStr (str_lit '' a''), PStr [], PStr (str_lit ''b'')])
   \<and> deserialize (StringList (PStr (str_lit '','')) String)
        (PList [PStr (str_lit ''x''), PStr (str_lit ''y'')])
     = Inr (PList [PStr (str_lit ''x''), PStr (str_lit ''y'')])
   \<and> fst (StringList_init Map.empty) = PStr (str_lit '','')
   \<and> deserialize (StringList (fst (StringList_init Map.empty)) String)
        (PStr (str_lit ''a,b,c''))
     = Inr (PList [PStr (str_lit ''a''), PStr (str_lit ''b''), PStr (str_lit ''c'')])
   \<and> fst (StringList_init [''delimiter'' \<mapsto> PStr (str_lit '';'')]) = PStr (str_lit '';'')
   \<and> deserialize (StringList (fst (StringList_init [''delimiter'' \<mapsto> PStr (str_lit '';'')])) String)
        (PStr (str_lit ''a;b''))
     = Inr (PList [PStr (str_lit ''a''), PStr (str_lit ''b'')])"
proof -
  have ne: "str_lit '','' \<noteq> []" "str_lit '';'' \<noteq> []"
    by (simp_all add: str_lit_def)
  have l: "deserialize (List String) (PList (map PStr ps)) = Inr (PList (map PStr ps))" for ps
    by (rule deserialize_List_converted)
       (simp add: list_all2_conv_all_nth Field_deserialize_def Field_validate_def)
  have s1: "split_loop (str_lit '','') [] (str_lit ''a,b,c'')
              = [str_lit ''a'', str_lit ''b'', str_lit ''c'']"
    and s2: "split_loop (str_lit '';'') [] (str_lit ''a;b'') = [str_lit ''a'', str_lit ''b'']"
    and s3: "split_loop (str_lit '','') [] (str_lit '', a,,b'')
              = [[], str_lit '' a'', [], str_lit ''b'']"
    by (simp_all add: str_lit_def)
  have e: "(Map.empty :: string \<rightharpoonup> pyval) ''delimiter'' = None"
    and d: "[''delimiter'' \<mapsto> PStr (str_lit '';'')] ''delimiter'' = Some (PStr (str_lit '';''))"
    by simp_all
  show ?thesis
    using StringList_deserialize_splits
            [of "PStr (str_lit '','')" String "[PStr (str_lit ''x''), PStr (str_lit ''y'')]"
                "str_lit '',''" "str_lit ''a,b,c''" Map.empty]
          StringList_deserialize_splits
            [of "PStr (str_lit '';'')" String "[]" "str_lit '';''" "str_lit ''a;b''"
                "[''delimiter'' \<mapsto> PStr (str_lit '';'')]"]
          StringList_deserialize_splits
            [of "PStr (str_lit '','')" String "[]" "str_lit '',''" "str_lit '', a,,b''" Map.empty]
          ne s1 s2 s3 e d
          l [of "[str_lit ''a'', str_lit ''b'', str_lit ''c'']"]
          l [of "[str_lit ''a'', str_lit ''b'']"]
          l [of "[[], str_lit '' a'', [], str_lit ''b'']"]
          l [of "[str_lit ''x'', str_lit ''y'']"]
    by (simp del: deserialize.simps)
qed

text \<open>
  C1, as the specification words it, fails: a \<^verbatim>\<open>StringList\<close> whose delimiter is the empty
  text does not split a text input; \<^verbatim>\<open>split\<close> raises \<^verbatim>\<open>ValueError\<close>, which is not a
  validation error.
\<close>

theorem StringList_empty_delimiter_counterexample:
  "fst (StringList_init [''delimiter'' \<mapsto> PStr []]) = PStr [] \<and>
   deserialize (StringList (PStr []) String) (PStr (str_lit ''a,b,c'')) = Inl ValueError \<and>
   \<not> is_validation_error ValueError"
  by (simp add: StringList_init_def dict_pop_def BaseField_init_def Field_deserialize_def
      StringList_deserialize_def split_on_def)

section \<open>Round trip\<close>

lemma comprehension_converted:
  "list_all2 (\<lambda>x e. f x = Inr e) xs es \<Longrightarrow> comprehension f xs = Inr es"
  by (induction xs es rule: list_all2_induct) simp_all

lemma list_all2_exists:
  "\<forall>x\<in>set xs. \<exists>y. P x y \<Longrightarrow> \<exists>ys. list_all2 P xs ys"
proof (induction xs)
  case Nil
  then show ?case by simp
next
  case (Cons x xs)
  then obtain y ys where "P x y" "list_all2 P xs ys" by auto
  then have "list_all2 P (x # xs) (y # ys)" by simp
  then show ?case by blast
qed

lemma list_roundtrip:
  assumes "\<forall>x\<in>set xs. \<exists>e. ser x = Inr e \<and> deserialize inner e = Inr x"
  shows "\<exists>e. List_serialize ser (PList xs) = Inr e \<and> deserialize (List inner) e = Inr (PList xs)"
proof -
  from assms obtain es
    where es: "list_all2 (\<lambda>x e. ser x = Inr e \<and> deserialize inner e = Inr x) xs es"
    using list_all2_exists [of xs "\<lambda>x e. ser x = Inr e \<and> deserialize inner e = Inr x"]
    by blast
  then have "list_all2 (\<lambda>x e. ser x = Inr e) xs es"
    by (rule list_all2_mono) simp
  then have s: "List_serialize ser (PList xs) = Inr (PList es)"
    by (simp add: comprehension_converted)
  from es have "list_all2 (\<lambda>e x. deserialize inner e = Inr x) es xs"
    by (simp add: list_all2_conv_all_nth)
  then have "deserialize (List inner) (PList es) = Inr (PList xs)"
    by (rule deserialize_List_converted)
  with s show ?thesis by blast
qed

text \<open>
  C2. For every field and every internal value \<open>v\<close> it holds, \<^verbatim>\<open>serialize\<close> succeeds and
  \<^verbatim>\<open>deserialize\<close> of the serialized value gives \<open>v\<close> back.
\<close>

theorem deserialize_serialize_roundtrip:
  "holds f v \<Longrightarrow> \<exists>e. serialize builtin_str f v = Inr e \<and> deserialize f e = Inr v"
proof (induction f arbitrary: v)
  case String
  then obtain s where "v = PStr s" by (cases v) simp_all
  then show ?case by (simp add: Field_deserialize_def Field_validate_def)
next
  case Integer
  then obtain n where "v = PInt n" by (cases v) simp_all
  then show ?case
    by (simp add: Integer_serialize_def Integer_deserialize_def Field_deserialize_def
        Field_validate_def)
next
  case (PositiveInteger name)
  then obtain n where "v = PInt n" "0 < n" by (cases v) simp_all
  then show ?case
    by (simp add: Integer_serialize_def Integer_deserialize_def Field_deserialize_def)
next
  case Label
  then obtain b s where v: "v = PBytes b" and "utf8_decode_loop (map unat b) = Some s"
    by (cases v) auto
  then have d: "bytes_decode b = Inr s" by (simp add: bytes_decode_def)
  from str_encode_bytes_decode [OF d] d v show ?case
    by (simp add: Field_deserialize_def Field_validate_def)
next
  case (List inner)
  from List.prems obtain xs where v: "v = PList xs" and h: "list_all (holds inner) xs"
    by (cases v) simp_all
  from h List.IH
  have "\<forall>x\<in>set xs. \<exists>e. serialize builtin_str inner x = Inr e \<and> deserialize inner e = Inr x"
    by (simp add: list_all_iff)
  from list_roundtrip [OF this] v show ?case
    by (simp del: deserialize.simps)
next
  case (StringList delimiter inner)
  from StringList.prems obtain xs where v: "v = PList xs" and h: "list_all (holds inner) xs"
    by (cases v) simp_all
  from h StringList.IH
  have "\<forall>x\<in>set xs. \<exists>e. serialize builtin_str inner x = Inr e \<and> deserialize inner e = Inr x"
    by (simp add: list_all_iff)
  from list_roundtrip [OF this]
  obtain e where e: "List_serialize (serialize builtin_str inner) (PList xs) = Inr e"
    and d: "deserialize (List inner) e = Inr (PList xs)"
    by blast
  from e obtain es where "e = PList es"
    by (auto simp: map_sum_def split: sum.splits)
  with d have "deserialize (StringList delimiter inner) e = Inr (PList xs)"
    by (simp add: deserialize_List_PList del: deserialize.simps)
  with e v show ?case
    by (simp del: deserialize.simps)
qed

theorem deserialize_serialize_roundtrip_witness:
  "holds Integer (PInt 42)
   \<and> (\<exists>e. serialize (\<lambda>v. []) Integer (PInt 42) = Inr e \<and> deserialize Integer e = Inr (PInt 42))
   \<and> holds Label (PBytes (bytes_lit ''abc''))
   \<and> (\<exists>e. serialize (\<lambda>v. []) Label (PBytes (bytes_lit ''abc'')) = Inr e
          \<and> deserialize Label e = Inr (PBytes (bytes_lit ''abc'')))
   \<and> holds (List (PositiveInteger None)) (PList [PInt 1, PInt 2])
   \<and> (\<exists>e. serialize (\<lambda>v. []) (List (PositiveInteger None)) (PList [PInt 1, PInt 2]) = Inr e
          \<and> deserialize (List (PositiveInteger None)) e = Inr (PList [PInt 1, PInt 2]))"
proof -
  have h1: "holds Integer (PInt 42)" by simp
  have h2: "holds Label (PBytes (bytes_lit ''abc''))"
    by (simp add: bytes_lit_def utf8_decode_char_def)
  have h3: "holds (List (PositiveInteger None)) (PList [PInt 1, PInt 2])" by simp
  from deserialize_serialize_roundtrip [OF h1, of "\<lambda>v. []"]
       deserialize_serialize_roundtrip [OF h2, of "\<lambda>v. []"]
       deserialize_serialize_roundtrip [OF h3, of "\<lambda>v. []"] h1 h2 h3
  show ?thesis by (intro conjI)
qed

end
